theory Spec2Isabelle
  imports Main "HOL-Library.Word" "HOL-Library.Multiset"
begin

unbundle bit_operations_syntax

section \<open>Go integers\<close>

text \<open>
  Ports are Go \<open>int32\<close> values. They are modelled as \<open>int\<close>, with the wrap-around of
  32-bit two's complement arithmetic written out by \<open>wrap32\<close> at every \<open>int32\<close>
  operation or conversion of the source. Go's \<open>/\<close> and \<open>%\<close> truncate towards zero.
\<close>

definition wrap32 :: "int \<Rightarrow> int" where
  "wrap32 x = (x + 2147483648) mod 4294967296 - 2147483648"

definition go_div :: "int \<Rightarrow> int \<Rightarrow> int" where
  "go_div a b = sgn a * sgn b * (\<bar>a\<bar> div \<bar>b\<bar>)"

definition go_mod :: "int \<Rightarrow> int \<Rightarrow> int" where
  "go_mod a b = a - b * go_div a b"

definition bitsPerWord :: int where
  "bitsPerWord = 64"

section \<open>Errors\<close>

text \<open>
  Every \<open>fmt.Errorf\<close> of the source is a constructor (the message text is left out, its
  arguments are kept). \<open>Panic\<close> is a Go run-time panic (index out of range, negative
  shift, negative slice length).
\<close>

datatype error =
    Panic
  | BitOutOfRange int int int
  | InvalidJSON
  | InvalidBitsFormat
  | InvalidBitValue nat
  | InvalidSizeFormat
  | InvalidOffsetFormat
  | StorageFailure
  | GetConfigMapFailed error
  | InitializeFailed string error
  | NotInitialized
  | PortOutOfRange int int int
  | PortInUse int
  | RangeFull string
  | MarkFailed error
  | ClearFailed error
  | SaveFailed error
  | NoPortRanges
  | NoDefaultRange
  | DefaultRangeMissing string
  | InvalidStartOrEnd string
  | StartNotBelowEnd string
  | OutsideNodePortRange string
  | InvalidRetryDelay
  | GetRangeFailed string string error
  | NoRangeManager string
  | AutoAllocateFailed string error
  | OutsideRange int string int int
  | NodePortInUse int
  | SpecifiedAllocateFailed int error

section \<open>pkg/utils/bitset.go\<close>

record BitSet =
  bits :: "64 word list"
  size_bs :: int
  offset :: int

text \<open>\<open>make([]uint64, n)\<close> panics when \<open>n\<close> is negative.\<close>

definition NewBitSet :: "int \<Rightarrow> int \<Rightarrow> error + BitSet" where
  "NewBitSet start end =
     (let size = wrap32 (wrap32 (end - start) + 1);
          wordsNeeded = go_div (size + bitsPerWord - 1) bitsPerWord
      in if wordsNeeded < 0 then Inl Panic
         else Inr \<lparr>bits = replicate (nat wordsNeeded) 0, size_bs = size, offset = start\<rparr>)"

text \<open>The bound \<open>bs.offset+int32(bs.size)\<close> of the three range checks.\<close>

definition limit :: "BitSet \<Rightarrow> int" where
  "limit bs = wrap32 (offset bs + wrap32 (size_bs bs))"

definition Set :: "BitSet \<Rightarrow> int \<Rightarrow> error + BitSet" where
  "Set bs port =
     (if port < offset bs \<or> port \<ge> limit bs
      then Inl (BitOutOfRange port (offset bs) (wrap32 (limit bs - 1)))
      else
        let pos = wrap32 (port - offset bs);
            wordIndex = go_div pos bitsPerWord;
            bitIndex = go_mod pos bitsPerWord
        in if wordIndex < 0 \<or> wordIndex \<ge> int (length (bits bs)) \<or> bitIndex < 0
           then Inl Panic
           else Inr (bs\<lparr>bits := (bits bs)[nat wordIndex :=
                       (bits bs ! nat wordIndex) OR push_bit (nat bitIndex) 1]\<rparr>))"

definition Clear :: "BitSet \<Rightarrow> int \<Rightarrow> error + BitSet" where
  "Clear bs port =
     (if port < offset bs \<or> port \<ge> limit bs
      then Inl (BitOutOfRange port (offset bs) (wrap32 (limit bs - 1)))
      else
        let pos = wrap32 (port - offset bs);
            wordIndex = go_div pos bitsPerWord;
            bitIndex = go_mod pos bitsPerWord
        in if wordIndex < 0 \<or> wordIndex \<ge> int (length (bits bs)) \<or> bitIndex < 0
           then Inl Panic
           else Inr (bs\<lparr>bits := (bits bs)[nat wordIndex :=
                       (bits bs ! nat wordIndex) AND NOT (push_bit (nat bitIndex) 1)]\<rparr>))"

text \<open>\<open>Test\<close> returns a \<open>bool\<close>; the only \<open>Inl\<close> it can give is \<open>Panic\<close>.\<close>

definition Test :: "BitSet \<Rightarrow> int \<Rightarrow> error + bool" where
  "Test bs port =
     (if port < offset bs \<or> port \<ge> limit bs
      then Inr False
      else
        let pos = wrap32 (port - offset bs);
            wordIndex = go_div pos bitsPerWord;
            bitIndex = go_mod pos bitsPerWord
        in if wordIndex < 0 \<or> wordIndex \<ge> int (length (bits bs)) \<or> bitIndex < 0
           then Inl Panic
           else Inr ((bits bs ! nat wordIndex) AND push_bit (nat bitIndex) 1 \<noteq> 0))"

text \<open>
  The inner loop of \<open>FindFirstClear\<close>, \<open>for bitIndex := 0; bitIndex < bitsPerWord; bitIndex++\<close>,
  entered at \<open>bitIndex\<close>: the port it returns, or \<open>None\<close> when it runs to its end.
\<close>

function scanBits :: "BitSet \<Rightarrow> nat \<Rightarrow> 64 word \<Rightarrow> nat \<Rightarrow> int option" where
  "scanBits bs wordIndex word bitIndex =
     (if int bitIndex < bitsPerWord then
        (if word AND push_bit bitIndex 1 = 0 then
           (let port = wrap32 (offset bs + wrap32 (int wordIndex * bitsPerWord + int bitIndex))
            in if port < limit bs then Some port
               else scanBits bs wordIndex word (Suc bitIndex))
         else scanBits bs wordIndex word (Suc bitIndex))
      else None)"
  by pat_completeness auto
termination
  by (relation "measure (\<lambda>(bs, wordIndex, word, bitIndex). 64 - bitIndex)")
     (auto simp: bitsPerWord_def)

declare scanBits.simps [simp del]

text \<open>The outer loop, \<open>for wordIndex, word := range bs.bits\<close>, over the words still to visit.\<close>

fun scanWords :: "BitSet \<Rightarrow> nat \<Rightarrow> 64 word list \<Rightarrow> int \<times> bool" where
  "scanWords bs wordIndex [] = (0, False)"
| "scanWords bs wordIndex (word # rest) =
     (if word \<noteq> NOT 0 then
        (case scanBits bs wordIndex word 0 of
           Some port \<Rightarrow> (port, True)
         | None \<Rightarrow> scanWords bs (Suc wordIndex) rest)
      else scanWords bs (Suc wordIndex) rest)"

definition FindFirstClear :: "BitSet \<Rightarrow> int \<times> bool" where
  "FindFirstClear bs = scanWords bs 0 (bits bs)"


subsection \<open>ToJSON and FromJSON\<close>

text \<open>
  The bytes that \<open>json.Marshal\<close> writes and \<open>json.Unmarshal\<close> reads are modelled by the
  JSON document they denote: the printing and parsing of the syntax belong to the library.
  Number literals are integers, which is all \<open>ToJSON\<close> writes; \<open>json.Marshal\<close> prints a
  \<open>uint64\<close>, an \<open>int\<close> and an \<open>int32\<close> exactly, in decimal, and the keys of a map sorted.
  A byte string that is not JSON is \<open>None\<close>.
\<close>

datatype json =
    JNull
  | JBool bool
  | JNumber int
  | JString string
  | JArray "json list"
  | JObject "(string \<times> json) list"

definition ToJSON :: "BitSet \<Rightarrow> json" where
  "ToJSON bs =
     JObject [(''bits'', JArray (map (\<lambda>w. JNumber (uint w)) (bits bs))),
              (''offset'', JNumber (offset bs)),
              (''size'', JNumber (size_bs bs))]"

text \<open>
  \<open>json.Unmarshal\<close> into \<open>map[string]interface{}\<close> stores every JSON number as a
  \<open>float64\<close>: the literal is rounded to the nearest value with a 53-bit significand, ties
  to even (\<open>strconv.ParseFloat\<close>), and a literal beyond the largest \<open>float64\<close> is an
  error. The \<open>float64\<close> values met here are integers and are modelled by their value.
\<close>

fun bitlen :: "nat \<Rightarrow> nat" where
  "bitlen n = (if n = 0 then 0 else Suc (bitlen (n div 2)))"

declare bitlen.simps [simp del]

definition float64_of_nat :: "nat \<Rightarrow> nat" where
  "float64_of_nat n =
     (if n < 2 ^ 53 then n
      else
        let e = bitlen n - 53;
            q = n div 2 ^ e;
            r = n mod 2 ^ e;
            h = 2 ^ (e - 1)
        in if r > h \<or> (r = h \<and> odd q) then (q + 1) * 2 ^ e else q * 2 ^ e)"

definition float64_of_int :: "int \<Rightarrow> int option" where
  "float64_of_int i =
     (let m = float64_of_nat (nat \<bar>i\<bar>)
      in if m \<ge> 2 ^ 1024 then None else Some (sgn i * int m))"

text \<open>The values of \<open>interface{}\<close> that \<open>json.Unmarshal\<close> builds.\<close>

datatype val =
    VNil
  | VBool bool
  | VFloat64 int
  | VString string
  | VSlice "val list"
  | VMap "(string \<times> val) list"

fun decode :: "json \<Rightarrow> val option"
  and decodeElems :: "json list \<Rightarrow> val list option"
  and decodeFields :: "(string \<times> json) list \<Rightarrow> (string \<times> val) list option" where
  "decode JNull = Some VNil"
| "decode (JBool b) = Some (VBool b)"
| "decode (JNumber n) = map_option VFloat64 (float64_of_int n)"
| "decode (JString s) = Some (VString s)"
| "decode (JArray xs) = map_option VSlice (decodeElems xs)"
| "decode (JObject kvs) = map_option VMap (decodeFields kvs)"
| "decodeElems [] = Some []"
| "decodeElems (x # xs) =
     (case decode x of
        None \<Rightarrow> None
      | Some v \<Rightarrow> map_option ((#) v) (decodeElems xs))"
| "decodeFields [] = Some []"
| "decodeFields ((k, x) # kvs) =
     (case decode x of
        None \<Rightarrow> None
      | Some v \<Rightarrow> map_option ((#) (k, v)) (decodeFields kvs))"

text \<open>
  \<open>json.Unmarshal(data, &temp)\<close> with \<open>temp\<close> a \<open>map[string]interface{}\<close>: \<open>null\<close>
  leaves the map nil, an object fills it (a repeated key keeps its last value), anything
  else is an error.
\<close>

definition unmarshal :: "json option \<Rightarrow> error + (string \<rightharpoonup> val)" where
  "unmarshal data =
     (case data of
        None \<Rightarrow> Inl InvalidJSON
      | Some JNull \<Rightarrow> Inr Map.empty
      | Some (JObject kvs) \<Rightarrow>
          (case decodeFields kvs of
             None \<Rightarrow> Inl InvalidJSON
           | Some decoded \<Rightarrow> Inr (map_of (rev decoded)))
      | Some _ \<Rightarrow> Inl InvalidJSON)"

text \<open>
  The conversions \<open>uint64(f)\<close>, \<open>int(f)\<close> and \<open>int32(f)\<close> of a \<open>float64\<close>. Inside the
  target type they are exact (the values here are integers). Outside it the conversion
  succeeds and, by the Go specification, its result is left to the implementation: the
  implementation is a parameter, three functions that give that result, brought into the
  target type by the wrap-around.
\<close>

record conversions =
  to_uint64 :: "int \<Rightarrow> 64 word"
  to_int :: "int \<Rightarrow> int"
  to_int32 :: "int \<Rightarrow> int"

definition wrap64 :: "int \<Rightarrow> int" where
  "wrap64 x = (x + 9223372036854775808) mod 18446744073709551616 - 9223372036854775808"

definition uint64_of_float64 :: "conversions \<Rightarrow> int \<Rightarrow> 64 word" where
  "uint64_of_float64 impl f =
     (if 0 \<le> f \<and> f < 18446744073709551616 then word_of_int f else to_uint64 impl f)"

definition int_of_float64 :: "conversions \<Rightarrow> int \<Rightarrow> int" where
  "int_of_float64 impl f =
     (if - 9223372036854775808 \<le> f \<and> f < 9223372036854775808 then f
      else wrap64 (to_int impl f))"

definition int32_of_float64 :: "conversions \<Rightarrow> int \<Rightarrow> int" where
  "int32_of_float64 impl f =
     (if - 2147483648 \<le> f \<and> f < 2147483648 then f else wrap32 (to_int32 impl f))"

text \<open>
  The implementation of the gc compiler on amd64. \<open>int(f)\<close> and \<open>int32(f)\<close> are one
  truncating instruction, which gives the smallest value of the type when \<open>f\<close> does not
  fit. \<open>uint64(f)\<close> is \<open>int64(f)\<close> below \<open>2^63\<close> and \<open>int64(f - 2^63) | 2^63\<close> from there on.
\<close>

definition amd64 :: conversions where
  "amd64 =
     \<lparr>to_uint64 = (\<lambda>f. if - 9223372036854775808 \<le> f \<and> f < 0 then word_of_int f
                       else 9223372036854775808),
      to_int = (\<lambda>f. - 9223372036854775808),
      to_int32 = (\<lambda>f. - 2147483648)\<rparr>"

text \<open>The loop \<open>for i, v := range bitsInterface\<close>, at index \<open>i\<close>.\<close>

fun convertBits :: "conversions \<Rightarrow> nat \<Rightarrow> val list \<Rightarrow> error + 64 word list" where
  "convertBits impl i [] = Inr []"
| "convertBits impl i (v # rest) =
     (case v of
        VFloat64 f \<Rightarrow>
          (case convertBits impl (Suc i) rest of
             Inl e \<Rightarrow> Inl e
           | Inr ws \<Rightarrow> Inr (uint64_of_float64 impl f # ws))
      | _ \<Rightarrow> Inl (InvalidBitValue i))"

text \<open>
  \<open>FromJSON\<close> overwrites the three fields of its receiver once every format check has
  passed.
\<close>

definition FromJSON :: "conversions \<Rightarrow> BitSet \<Rightarrow> json option \<Rightarrow> error + BitSet" where
  "FromJSON impl bs data =
     (case unmarshal data of
        Inl e \<Rightarrow> Inl e
      | Inr temp \<Rightarrow>
          (case temp ''bits'' of
             Some (VSlice bitsInterface) \<Rightarrow>
               (case convertBits impl 0 bitsInterface of
                  Inl e \<Rightarrow> Inl e
                | Inr ws \<Rightarrow>
                    (case temp ''size'' of
                       Some (VFloat64 sz) \<Rightarrow>
                         (case temp ''offset'' of
                            Some (VFloat64 off) \<Rightarrow>
                              Inr (bs\<lparr>bits := ws, size_bs := int_of_float64 impl sz,
                                      offset := int32_of_float64 impl off\<rparr>)
                          | _ \<Rightarrow> Inl InvalidOffsetFormat)
                     | _ \<Rightarrow> Inl InvalidSizeFormat))
           | _ \<Rightarrow> Inl InvalidBitsFormat))"

section \<open>pkg/config\<close>

record PortRange =
  Start :: int
  End :: int
  Namespaces :: "string list"
  Labels :: "(string \<times> string) list"
  Description :: string

record StorageConfig =
  ConfigMapName :: string
  ConfigMapNamespace :: string
  RetryAttempts :: int
  RetryDelay :: string

text \<open>
  \<open>PortRanges\<close> and \<open>Labels\<close> are Go maps, given by their entries (the keys are distinct).
  A \<open>for ... range\<close> loop over a Go map visits the entries in an order the runtime
  chooses afresh for each loop; every function with such a loop over \<open>PortRanges\<close> takes
  the order of that visit as an argument, a list \<open>order\<close> with \<open>visits m order\<close>. The
  loop over \<open>Labels\<close> runs over the entries as listed: its result is the same in every
  order (\<open>labelsMatch_iff\<close>).
\<close>

record Config =
  PortRanges :: "(string \<times> PortRange) list"
  DefaultRange :: string
  AllowOutsideRangePorts :: bool
  StorageConfig :: StorageConfig
  LogLevel :: string

definition visits :: "('k \<times> 'v) list \<Rightarrow> ('k \<times> 'v) list \<Rightarrow> bool" where
  "visits m order \<longleftrightarrow> mset order = mset m"

text \<open>The checks of one range in the loop of \<open>validateConfig\<close>.\<close>

definition validateRange :: "string \<Rightarrow> PortRange \<Rightarrow> error option" where
  "validateRange name portRange =
     (if Start portRange \<le> 0 \<or> End portRange \<le> 0 then Some (InvalidStartOrEnd name)
      else if Start portRange \<ge> End portRange then Some (StartNotBelowEnd name)
      else if Start portRange < 30000 \<or> End portRange > 32767 then Some (OutsideNodePortRange name)
      else None)"

fun validateRanges :: "(string \<times> PortRange) list \<Rightarrow> error option" where
  "validateRanges [] = None"
| "validateRanges ((name, portRange) # rest) =
     (case validateRange name portRange of
        Some e \<Rightarrow> Some e
      | None \<Rightarrow> validateRanges rest)"

text \<open>
  \<open>ParseDuration\<close> stands for \<open>time.ParseDuration\<close> of the standard library: whether the
  string parses.
\<close>

definition validateConfig ::
  "(string \<Rightarrow> bool) \<Rightarrow> (string \<times> PortRange) list \<Rightarrow> Config \<Rightarrow> error option" where
  "validateConfig ParseDuration order config =
     (if length (PortRanges config) = 0 then Some NoPortRanges
      else if DefaultRange config = [] then Some NoDefaultRange
      else if map_of (PortRanges config) (DefaultRange config) = None
        then Some (DefaultRangeMissing (DefaultRange config))
      else (case validateRanges order of
              Some e \<Rightarrow> Some e
            | None \<Rightarrow>
                if \<not> ParseDuration (RetryDelay (StorageConfig config))
                then Some InvalidRetryDelay
                else None))"

text \<open>The inner loop \<open>for _, ns := range portRange.Namespaces\<close> of \<open>GetPortRangeForNamespace\<close>.\<close>

fun namespaceListed :: "string list \<Rightarrow> string \<Rightarrow> bool" where
  "namespaceListed [] namespace = False"
| "namespaceListed (ns # rest) namespace =
     (if ns = namespace \<or> ns = ''*'' then True else namespaceListed rest namespace)"

fun namespaceLoop :: "(string \<times> PortRange) list \<Rightarrow> string \<Rightarrow> (string \<times> PortRange) option" where
  "namespaceLoop [] namespace = None"
| "namespaceLoop ((rangeName, portRange) # rest) namespace =
     (if namespaceListed (Namespaces portRange) namespace then Some (rangeName, portRange)
      else namespaceLoop rest namespace)"

definition GetPortRangeForNamespace ::
  "(string \<times> PortRange) list \<Rightarrow> Config \<Rightarrow> string \<Rightarrow> error + string \<times> PortRange" where
  "GetPortRangeForNamespace order c namespace =
     (case namespaceLoop order namespace of
        Some found \<Rightarrow> Inr found
      | None \<Rightarrow>
          (case map_of (PortRanges c) (DefaultRange c) of
             None \<Rightarrow> Inl (DefaultRangeMissing (DefaultRange c))
           | Some defaultRange \<Rightarrow> Inr (DefaultRange c, defaultRange)))"

text \<open>
  The inner loop \<open>for key, value := range portRange.Labels\<close> of \<open>GetPortRangeForService\<close>:
  the value of \<open>match\<close> when it ends. The labels of the Service are a map.
\<close>

fun labelsMatch :: "(string \<times> string) list \<Rightarrow> (string \<rightharpoonup> string) \<Rightarrow> bool" where
  "labelsMatch [] labels = True"
| "labelsMatch ((key, v) # rest) labels =
     (case labels key of
        None \<Rightarrow> False
      | Some serviceValue \<Rightarrow> if serviceValue \<noteq> v then False else labelsMatch rest labels)"

fun labelLoop ::
  "(string \<times> PortRange) list \<Rightarrow> (string \<rightharpoonup> string) \<Rightarrow> (string \<times> PortRange) option" where
  "labelLoop [] labels = None"
| "labelLoop ((rangeName, portRange) # rest) labels =
     (if length (Labels portRange) > 0 then
        (if labelsMatch (Labels portRange) labels then Some (rangeName, portRange)
         else labelLoop rest labels)
      else labelLoop rest labels)"

text \<open>
  \<open>labelOrder\<close> is the visit of the label loop, \<open>nsOrder\<close> that of the loop in
  \<open>GetPortRangeForNamespace\<close>.
\<close>

definition GetPortRangeForService ::
  "(string \<times> PortRange) list \<Rightarrow> (string \<times> PortRange) list \<Rightarrow> Config \<Rightarrow> string \<Rightarrow>
   (string \<rightharpoonup> string) \<Rightarrow> error + string \<times> PortRange" where
  "GetPortRangeForService labelOrder nsOrder c namespace labels =
     (case labelLoop labelOrder labels of
        Some found \<Rightarrow> Inr found
      | None \<Rightarrow> GetPortRangeForNamespace nsOrder c namespace)"

section \<open>pkg/portmanager: storage\<close>

text \<open>
  The Kubernetes API server is the environment. \<open>configMap\<close> is the \<open>Data\<close> of the
  ConfigMap that holds the state, \<open>None\<close> while the object does not exist. \<open>faults\<close> is
  the environment's choice for each call of \<open>LoadBitSet\<close> or \<open>SaveBitSet\<close> to come:
  \<open>True\<close> when the call fails (an API error, conflicts beyond the retries, a cancelled
  context); with none left the call goes through. A \<open>SaveBitSet\<close> that goes through leaves
  the serialised BitSet under the name of the range, creating the ConfigMap when it is
  missing and keeping its other entries; one that fails leaves the ConfigMap as it was.
\<close>

record Storage =
  configMap :: "(string \<rightharpoonup> json option) option"
  faults :: "bool list"

definition nextFault :: "Storage \<Rightarrow> bool \<times> Storage" where
  "nextFault s = (case faults s of [] \<Rightarrow> (False, s) | f # fs \<Rightarrow> (f, s\<lparr>faults := fs\<rparr>))"

definition LoadBitSet ::
  "conversions \<Rightarrow> Storage \<Rightarrow> string \<Rightarrow> int \<Rightarrow> int \<Rightarrow> (error + BitSet) \<times> Storage" where
  "LoadBitSet impl s rangeName start end =
     (case nextFault s of
        (True, s') \<Rightarrow> (Inl (GetConfigMapFailed StorageFailure), s')
      | (False, s') \<Rightarrow>
          (case configMap s' of
             None \<Rightarrow> (NewBitSet start end, s')
           | Some cmData \<Rightarrow>
               (case cmData rangeName of
                  None \<Rightarrow> (NewBitSet start end, s')
                | Some data \<Rightarrow>
                    (case NewBitSet start end of
                       Inl e \<Rightarrow> (Inl e, s')
                     | Inr bitSet \<Rightarrow>
                         (case FromJSON impl bitSet data of
                            Inl e \<Rightarrow> (NewBitSet start end, s')
                          | Inr loaded \<Rightarrow> (Inr loaded, s'))))))"

definition SaveBitSet :: "Storage \<Rightarrow> string \<Rightarrow> BitSet \<Rightarrow> error option \<times> Storage" where
  "SaveBitSet s rangeName bitSet =
     (case nextFault s of
        (True, s') \<Rightarrow> (Some StorageFailure, s')
      | (False, s') \<Rightarrow>
          (None, s'\<lparr>configMap :=
             Some ((case configMap s' of None \<Rightarrow> Map.empty | Some cmData \<Rightarrow> cmData)
                   (rangeName \<mapsto> Some (ToJSON bitSet)))\<rparr>))"

section \<open>pkg/portmanager/range.go\<close>

text \<open>
  The struct \<open>portmanager.PortRange\<close> (named \<open>PortRangeMgr\<close> here, beside
  \<open>config.PortRange\<close>). \<open>bitSet\<close> is a pointer, \<open>None\<close> when nil. The storage is shared
  by all ranges and is passed along; the mutex and the logger are left out.
\<close>

record PortRangeMgr =
  name :: string
  config :: PortRange
  bitSet :: "BitSet option"

definition NewPortRange :: "string \<Rightarrow> PortRange \<Rightarrow> PortRangeMgr" where
  "NewPortRange rangeName rangeConfig = \<lparr>name = rangeName, config = rangeConfig, bitSet = None\<rparr>"

definition Initialize ::
  "conversions \<Rightarrow> PortRangeMgr \<Rightarrow> Storage \<Rightarrow> error option \<times> PortRangeMgr \<times> Storage" where
  "Initialize impl pr s =
     (case LoadBitSet impl s (name pr) (Start (config pr)) (End (config pr)) of
        (Inl e, s') \<Rightarrow>
          if e = Panic then (Some e, pr, s')
          else (Some (InitializeFailed (name pr) e), pr\<lparr>bitSet := None\<rparr>, s')
      | (Inr loaded, s') \<Rightarrow> (None, pr\<lparr>bitSet := Some loaded\<rparr>, s'))"

text \<open>
  The port that \<open>AllocatePort\<close> settles on before it marks anything: the requested port
  after its two checks, or the first clear one.
\<close>

definition choosePort :: "PortRangeMgr \<Rightarrow> BitSet \<Rightarrow> int \<Rightarrow> error + int" where
  "choosePort pr bs requestedPort =
     (if requestedPort \<noteq> 0 then
        (if requestedPort < Start (config pr) \<or> requestedPort > End (config pr)
         then Inl (PortOutOfRange requestedPort (Start (config pr)) (End (config pr)))
         else
           (case Test bs requestedPort of
              Inl e \<Rightarrow> Inl e
            | Inr used \<Rightarrow> if used then Inl (PortInUse requestedPort) else Inr requestedPort))
      else
        (case FindFirstClear bs of
           (port, found) \<Rightarrow> if \<not> found then Inl (RangeFull (name pr)) else Inr port))"

text \<open>
  Mark, save, and on a failed save clear again. The result of the clearing \<open>Clear\<close> is
  dropped by the source.
\<close>

definition markAndSave ::
  "PortRangeMgr \<Rightarrow> Storage \<Rightarrow> BitSet \<Rightarrow> int \<Rightarrow> error option \<times> PortRangeMgr \<times> Storage" where
  "markAndSave pr s bs port =
     (case Set bs port of
        Inl e \<Rightarrow> (Some (if e = Panic then Panic else MarkFailed e), pr, s)
      | Inr marked \<Rightarrow>
          (case SaveBitSet s (name pr) marked of
             (Some e, s') \<Rightarrow>
               (case Clear marked port of
                  Inl c \<Rightarrow>
                    (Some (if c = Panic then Panic else SaveFailed e),
                     pr\<lparr>bitSet := Some marked\<rparr>, s')
                | Inr restored \<Rightarrow> (Some (SaveFailed e), pr\<lparr>bitSet := Some restored\<rparr>, s'))
           | (None, s') \<Rightarrow> (None, pr\<lparr>bitSet := Some marked\<rparr>, s')))"

definition AllocatePort ::
  "PortRangeMgr \<Rightarrow> Storage \<Rightarrow> int \<Rightarrow> (error + int) \<times> PortRangeMgr \<times> Storage" where
  "AllocatePort pr s requestedPort =
     (case bitSet pr of
        None \<Rightarrow> (Inl NotInitialized, pr, s)
      | Some bs \<Rightarrow>
          (case choosePort pr bs requestedPort of
             Inl e \<Rightarrow> (Inl e, pr, s)
           | Inr port \<Rightarrow>
               (case markAndSave pr s bs port of
                  (Some e, pr', s') \<Rightarrow> (Inl e, pr', s')
                | (None, pr', s') \<Rightarrow> (Inr port, pr', s'))))"

definition ReleasePort ::
  "PortRangeMgr \<Rightarrow> Storage \<Rightarrow> int \<Rightarrow> error option \<times> PortRangeMgr \<times> Storage" where
  "ReleasePort pr s port =
     (case bitSet pr of
        None \<Rightarrow> (Some NotInitialized, pr, s)
      | Some bs \<Rightarrow>
          if port < Start (config pr) \<or> port > End (config pr)
          then (Some (PortOutOfRange port (Start (config pr)) (End (config pr))), pr, s)
          else
            (case Test bs port of
               Inl e \<Rightarrow> (Some e, pr, s)
             | Inr used \<Rightarrow>
                 if \<not> used then (None, pr, s)
                 else
                   (case Clear bs port of
                      Inl e \<Rightarrow> (Some (if e = Panic then Panic else ClearFailed e), pr, s)
                    | Inr cleared \<Rightarrow>
                        (case SaveBitSet s (name pr) cleared of
                           (Some e, s') \<Rightarrow>
                             (case Set cleared port of
                                Inl c \<Rightarrow>
                                  (Some (if c = Panic then Panic else SaveFailed e),
                                   pr\<lparr>bitSet := Some cleared\<rparr>, s')
                              | Inr restored \<Rightarrow>
                                  (Some (SaveFailed e), pr\<lparr>bitSet := Some restored\<rparr>, s'))
                         | (None, s') \<Rightarrow> (None, pr\<lparr>bitSet := Some cleared\<rparr>, s')))))"

definition MarkPortAsUsed ::
  "PortRangeMgr \<Rightarrow> Storage \<Rightarrow> int \<Rightarrow> error option \<times> PortRangeMgr \<times> Storage" where
  "MarkPortAsUsed pr s port =
     (case bitSet pr of
        None \<Rightarrow> (Some NotInitialized, pr, s)
      | Some bs \<Rightarrow>
          if port < Start (config pr) \<or> port > End (config pr)
          then (Some (PortOutOfRange port (Start (config pr)) (End (config pr))), pr, s)
          else
            (case Test bs port of
               Inl e \<Rightarrow> (Some e, pr, s)
             | Inr used \<Rightarrow>
                 if used then (None, pr, s)
                 else markAndSave pr s bs port))"

definition IsPortUsed :: "PortRangeMgr \<Rightarrow> int \<Rightarrow> error + bool" where
  "IsPortUsed pr port =
     (case bitSet pr of
        None \<Rightarrow> Inr False
      | Some bs \<Rightarrow> Test bs port)"

text \<open>
  \<open>n\<close> calls \<open>AllocatePort(ctx, 0)\<close> in a row on one range, with what each returned, and
  the ports among the results.
\<close>

fun autoAllocations :: "PortRangeMgr \<Rightarrow> Storage \<Rightarrow> nat \<Rightarrow> (error + int) list" where
  "autoAllocations pr s 0 = []"
| "autoAllocations pr s (Suc n) =
     (case AllocatePort pr s 0 of (r, pr', s') \<Rightarrow> r # autoAllocations pr' s' n)"

fun granted :: "(error + int) list \<Rightarrow> int list" where
  "granted [] = []"
| "granted (Inl e # rs) = granted rs"
| "granted (Inr port # rs) = port # granted rs"

text \<open>
  The public mutating operations of a range as one call, with the error it returned
  (\<open>None\<close> for success). \<open>persisted\<close> is the blob stored for a range, and a range
  \<open>agrees\<close> with the storage when that blob is the serialisation of its BitSet.
\<close>

datatype rangeCall = Allocate int | Release int | MarkUsed int

definition callRange ::
  "rangeCall \<Rightarrow> PortRangeMgr \<Rightarrow> Storage \<Rightarrow> error option \<times> PortRangeMgr \<times> Storage" where
  "callRange c pr s =
     (case c of
        Allocate requestedPort \<Rightarrow>
          (case AllocatePort pr s requestedPort of
             (Inl e, pr', s') \<Rightarrow> (Some e, pr', s')
           | (Inr port, pr', s') \<Rightarrow> (None, pr', s'))
      | Release port \<Rightarrow> ReleasePort pr s port
      | MarkUsed port \<Rightarrow> MarkPortAsUsed pr s port)"

definition persisted :: "Storage \<Rightarrow> string \<Rightarrow> json option option" where
  "persisted s rangeName =
     (case configMap s of None \<Rightarrow> None | Some cmData \<Rightarrow> cmData rangeName)"

definition agrees :: "PortRangeMgr \<Rightarrow> Storage \<Rightarrow> bool" where
  "agrees pr s \<longleftrightarrow>
     (case bitSet pr of
        None \<Rightarrow> False
      | Some bs \<Rightarrow> persisted s (name pr) = Some (Some (ToJSON bs)))"

section \<open>pkg/portmanager: manager and allocator\<close>

record ServicePort =
  Name :: string
  NodePort :: int

record Service =
  Namespace :: string
  ServiceName :: string
  ServiceLabels :: "string \<rightharpoonup> string"
  Ports :: "ServicePort list"

datatype message = AutoAllocated int string | UsedSpecified int string

record AllocationResult =
  PortIndex :: nat
  PortName :: string
  AllocatedPort :: int
  RangeName :: string
  Message :: message

text \<open>
  The \<open>Manager\<close>: its configuration, the storage and the map \<open>ranges\<close> from names to the
  range managers. A \<open>*PortRange\<close> obtained from \<open>GetPortRange\<close> points to the object in
  the map, so a call through it changes the state held there: \<open>putRange\<close> writes the
  state after a call back, with the storage.
\<close>

record Manager =
  config_m :: Config
  storage_m :: Storage
  ranges :: "string \<rightharpoonup> PortRangeMgr"

definition GetPortRange :: "Manager \<Rightarrow> string \<Rightarrow> PortRangeMgr option" where
  "GetPortRange m rangeName = ranges m rangeName"

definition putRange :: "Manager \<Rightarrow> string \<Rightarrow> PortRangeMgr \<Rightarrow> Storage \<Rightarrow> Manager" where
  "putRange m rangeName pr s = m\<lparr>ranges := (ranges m)(rangeName \<mapsto> pr), storage_m := s\<rparr>"

text \<open>\<open>rollbackAllocations\<close> logs the errors of \<open>ReleasePort\<close> and goes on; a panic ends it.\<close>

fun rollbackAllocations :: "Manager \<Rightarrow> AllocationResult list \<Rightarrow> error option \<times> Manager" where
  "rollbackAllocations m [] = (None, m)"
| "rollbackAllocations m (result # rest) =
     (case GetPortRange m (RangeName result) of
        None \<Rightarrow> rollbackAllocations m rest
      | Some rangeManager \<Rightarrow>
          (case ReleasePort rangeManager (storage_m m) (AllocatedPort result) of
             (err, pr', s') \<Rightarrow>
               if err = Some Panic then (Some Panic, putRange m (RangeName result) pr' s')
               else rollbackAllocations (putRange m (RangeName result) pr' s') rest))"

text \<open>
  What follows a failed \<open>AllocatePort\<close> in \<open>AllocateForService\<close>: the rollback, then the
  error \<open>wrapped\<close>.
\<close>

definition rollbackAndFail ::
  "Manager \<Rightarrow> AllocationResult list \<Rightarrow> error \<Rightarrow> error \<Rightarrow> (error + AllocationResult list) \<times> Manager" where
  "rollbackAndFail m results e wrapped =
     (if e = Panic then (Inl Panic, m)
      else
        (case rollbackAllocations m results of
           (Some p, m') \<Rightarrow> (Inl p, m')
         | (None, m') \<Rightarrow> (Inl wrapped, m')))"

text \<open>
  The loop \<open>for i, port := range service.Spec.Ports\<close> of \<open>AllocateForService\<close>, at index
  \<open>i\<close> with the ports still to come. \<open>rangeManager\<close> is the object at
  \<open>ranges[rangeName]\<close>, which the source has checked to be there before the loop.
\<close>

fun allocatePorts ::
  "Manager \<Rightarrow> string \<Rightarrow> string \<Rightarrow> PortRange \<Rightarrow> nat \<Rightarrow> ServicePort list \<Rightarrow>
   AllocationResult list \<Rightarrow> (error + AllocationResult list) \<times> Manager" where
  "allocatePorts m namespace rangeName portRange i [] results = (Inr results, m)"
| "allocatePorts m namespace rangeName portRange i (port # rest) results =
     (case GetPortRange m rangeName of
        None \<Rightarrow> (Inl (NoRangeManager rangeName), m)
      | Some rangeManager \<Rightarrow>
          if NodePort port = 0 then
            (case AllocatePort rangeManager (storage_m m) 0 of
               (Inl e, pr', s') \<Rightarrow>
                 rollbackAndFail (putRange m rangeName pr' s') results e
                   (AutoAllocateFailed (Name port) e)
             | (Inr allocatedPort, pr', s') \<Rightarrow>
                 allocatePorts (putRange m rangeName pr' s') namespace rangeName portRange (Suc i) rest
                   (results @ [\<lparr>PortIndex = i, PortName = Name port,
                                 AllocatedPort = allocatedPort, RangeName = rangeName,
                                 Message = AutoAllocated allocatedPort rangeName\<rparr>]))
          else if (NodePort port < Start portRange \<or> NodePort port > End portRange)
                  \<and> \<not> AllowOutsideRangePorts (config_m m)
          then (Inl (OutsideRange (NodePort port) namespace (Start portRange) (End portRange)), m)
          else
            (case IsPortUsed rangeManager (NodePort port) of
               Inl e \<Rightarrow> (Inl e, m)
             | Inr used \<Rightarrow>
                 if used then (Inl (NodePortInUse (NodePort port)), m)
                 else
                   (case AllocatePort rangeManager (storage_m m) (NodePort port) of
                      (Inl e, pr', s') \<Rightarrow>
                        rollbackAndFail (putRange m rangeName pr' s') results e
                          (SpecifiedAllocateFailed (NodePort port) e)
                    | (Inr allocatedPort, pr', s') \<Rightarrow>
                        allocatePorts (putRange m rangeName pr' s') namespace rangeName portRange
                          (Suc i) rest
                          (results @ [\<lparr>PortIndex = i, PortName = Name port,
                                        AllocatedPort = NodePort port, RangeName = rangeName,
                                        Message = UsedSpecified (NodePort port) rangeName\<rparr>]))))"

definition AllocateForService ::
  "(string \<times> PortRange) list \<Rightarrow> (string \<times> PortRange) list \<Rightarrow> Manager \<Rightarrow> Service \<Rightarrow>
   (error + AllocationResult list) \<times> Manager" where
  "AllocateForService labelOrder nsOrder m service =
     (let namespace = (if Namespace service = [] then ''default'' else Namespace service)
      in case GetPortRangeForService labelOrder nsOrder (config_m m) namespace
                (ServiceLabels service) of
           Inl e \<Rightarrow> (Inl (GetRangeFailed namespace (ServiceName service) e), m)
         | Inr (rangeName, portRange) \<Rightarrow>
             (case GetPortRange m rangeName of
                None \<Rightarrow> (Inl (NoRangeManager rangeName), m)
              | Some rangeManager \<Rightarrow>
                  allocatePorts m namespace rangeName portRange 0 (Ports service) []))"

section \<open>Ranges that match\<close>

text \<open>
  The entries of \<open>PortRanges\<close> at which the label loop and the namespace loop
  return.
\<close>

definition labelMatches :: "(string \<rightharpoonup> string) \<Rightarrow> string \<times> PortRange \<Rightarrow> bool" where
  "labelMatches labels entry \<longleftrightarrow>
     length (Labels (snd entry)) > 0 \<and> labelsMatch (Labels (snd entry)) labels"

definition namespaceMatches :: "string \<Rightarrow> string \<times> PortRange \<Rightarrow> bool" where
  "namespaceMatches namespace entry \<longleftrightarrow> namespaceListed (Namespaces (snd entry)) namespace"


section \<open>Well-formed BitSets\<close>

text \<open>
  The BitSets on which no \<open>int32\<close> operation of the source wraps around and no index
  leaves the slice: what \<open>NewBitSet\<close> builds for \<open>0 \<le> start \<le> end\<close> below \<open>2^31 - 64\<close>, and
  what \<open>Set\<close> and \<open>Clear\<close> keep. \<open>holds bs k\<close> is bit \<open>k\<close> of the packed words.
\<close>

definition wf_bs :: "BitSet \<Rightarrow> bool" where
  "wf_bs bs \<longleftrightarrow>
     0 \<le> offset bs \<and> 0 \<le> size_bs bs \<and>
     offset bs + size_bs bs + 64 \<le> 2147483648 \<and>
     length (bits bs) = nat ((size_bs bs + 63) div 64)"

definition holds :: "BitSet \<Rightarrow> nat \<Rightarrow> bool" where
  "holds bs k \<longleftrightarrow> bit (bits bs ! (k div 64)) (k mod 64)"

text \<open>
  The position that \<open>Set\<close>, \<open>Clear\<close> and \<open>Test\<close> compute for a port, and the ports
  for which they reach a word of the slice.
\<close>

definition wordIndexOf :: "BitSet \<Rightarrow> int \<Rightarrow> nat" where
  "wordIndexOf bs port = nat (go_div (wrap32 (port - offset bs)) bitsPerWord)"

definition bitIndexOf :: "BitSet \<Rightarrow> int \<Rightarrow> nat" where
  "bitIndexOf bs port = nat (go_mod (wrap32 (port - offset bs)) bitsPerWord)"

definition addressable :: "BitSet \<Rightarrow> int \<Rightarrow> bool" where
  "addressable bs port \<longleftrightarrow>
     offset bs \<le> port \<and> port < limit bs \<and>
     0 \<le> go_div (wrap32 (port - offset bs)) bitsPerWord \<and>
     go_div (wrap32 (port - offset bs)) bitsPerWord < int (length (bits bs)) \<and>
     0 \<le> go_mod (wrap32 (port - offset bs)) bitsPerWord"

text \<open>The BitSets whose first \<open>k\<close> bits are set and whose other bits are clear.\<close>

definition prefixFull :: "BitSet \<Rightarrow> nat \<Rightarrow> bool" where
  "prefixFull bs k \<longleftrightarrow>
     wf_bs bs \<and> int k \<le> size_bs bs \<and> (\<forall>j. int j < size_bs bs \<longrightarrow> (holds bs j \<longleftrightarrow> j < k))"

text \<open>
  The BitSets whose numbers every \<open>float64\<close> holds exactly and whose offset is an
  \<open>int32\<close>.
\<close>

definition representable :: "BitSet \<Rightarrow> bool" where
  "representable bs \<longleftrightarrow>
     list_all (\<lambda>w. uint w < 2 ^ 53) (bits bs) \<and> \<bar>size_bs bs\<bar> < 2 ^ 53 \<and>
     - (2 ^ 31) \<le> offset bs \<and> offset bs < 2 ^ 31"

section \<open>Scenarios\<close>

text \<open>
  The configuration of scenario E1 of the specification: one range \<open>dev\<close>, ports 31500 to
  31999, bound to the namespace \<open>dev\<close>; no ConfigMap yet, no fault to come.
\<close>

definition devRange :: PortRange where
  "devRange =
     \<lparr>Start = 31500, End = 31999, Namespaces = [''dev''], Labels = [], Description = []\<rparr>"

definition devConfig :: "bool \<Rightarrow> Config" where
  "devConfig allow =
     \<lparr>PortRanges = [(''dev'', devRange)], DefaultRange = ''dev'',
      AllowOutsideRangePorts = allow,
      StorageConfig = \<lparr>ConfigMapName = ''nodeport-allocator-state'',
                       ConfigMapNamespace = ''kube-system'', RetryAttempts = 3,
                       RetryDelay = ''1s''\<rparr>,
      LogLevel = ''info''\<rparr>"

definition noStorage :: Storage where
  "noStorage = \<lparr>configMap = None, faults = []\<rparr>"

text \<open>
  Scenario E4: the range \<open>dev\<close> with the two ports 31500 and 31501, as \<open>Initialize\<close>
  leaves it when nothing is stored.
\<close>

definition smallRange :: PortRangeMgr where
  "smallRange =
     \<lparr>name = ''dev'',
      config = \<lparr>Start = 31500, End = 31501, Namespaces = [''dev''], Labels = [],
                Description = []\<rparr>,
      bitSet = Some \<lparr>bits = [0], size_bs = 2, offset = 31500\<rparr>\<rparr>"

text \<open>
  A BitSet over the 64 ports from 30000 on, with the ports 30000 and 30053 in use: its
  one word is \<open>2^53 + 1\<close>.
\<close>

definition wideBitSet :: BitSet where
  "wideBitSet = \<lparr>bits = [9007199254740993], size_bs = 64, offset = 30000\<rparr>"


text \<open>
  The range \<open>wide\<close>, 30000 to 30063, with port 30000 in use, in memory and in the
  ConfigMap.
\<close>

definition wideRange :: PortRangeMgr where
  "wideRange =
     \<lparr>name = ''wide'',
      config = \<lparr>Start = 30000, End = 30063, Namespaces = [''wide''], Labels = [],
                Description = []\<rparr>,
      bitSet = Some \<lparr>bits = [1], size_bs = 64, offset = 30000\<rparr>\<rparr>"

definition wideStorage :: Storage where
  "wideStorage =
     \<lparr>configMap = Some [''wide'' \<mapsto> Some (ToJSON \<lparr>bits = [1], size_bs = 64, offset = 30000\<rparr>)],
      faults = []\<rparr>"

text \<open>
  A configuration changed after a blob was written: the range \<open>dev\<close> is now 30000 to
  30063, and the ConfigMap still holds the BitSet of the 64 ports from 31000 on, with
  31000 in use. And a ConfigMap that holds, for the range \<open>junk\<close>, a string that is not
  JSON.
\<close>

definition movedRange :: PortRangeMgr where
  "movedRange =
     NewPortRange ''dev''
       \<lparr>Start = 30000, End = 30063, Namespaces = [''dev''], Labels = [], Description = []\<rparr>"

definition staleStorage :: Storage where
  "staleStorage =
     \<lparr>configMap =
        Some [''dev'' \<mapsto> Some (ToJSON \<lparr>bits = [1], size_bs = 64, offset = 31000\<rparr>)],
      faults = []\<rparr>"

definition junkRange :: PortRangeMgr where
  "junkRange =
     NewPortRange ''junk''
       \<lparr>Start = 31500, End = 31501, Namespaces = [''junk''], Labels = [], Description = []\<rparr>"

definition junkStorage :: Storage where
  "junkStorage = \<lparr>configMap = Some [''junk'' \<mapsto> None], faults = []\<rparr>"

text \<open>
  Two ranges whose intervals overlap. \<open>parses1s\<close> is a \<open>ParseDuration\<close> that accepts the
  default retry delay \<open>1s\<close>, as \<open>time.ParseDuration\<close> does.
\<close>

definition parses1s :: "string \<Rightarrow> bool" where
  "parses1s d \<longleftrightarrow> d = ''1s''"

definition rangeA :: PortRange where
  "rangeA = \<lparr>Start = 30000, End = 31000, Namespaces = [''a''], Labels = [], Description = []\<rparr>"

definition rangeB :: PortRange where
  "rangeB = \<lparr>Start = 30500, End = 31500, Namespaces = [''b''], Labels = [], Description = []\<rparr>"

definition overlapConfig :: Config where
  "overlapConfig =
     \<lparr>PortRanges = [(''a'', rangeA), (''b'', rangeB)], DefaultRange = ''a'',
      AllowOutsideRangePorts = False,
      StorageConfig = \<lparr>ConfigMapName = ''nodeport-allocator-state'',
                       ConfigMapNamespace = ''kube-system'', RetryAttempts = 3,
                       RetryDelay = ''1s''\<rparr>,
      LogLevel = ''info''\<rparr>"

text \<open>
  Two ranges with label selectors, and the labels of a Service that both selectors match.
\<close>

definition blueRange :: PortRange where
  "blueRange = \<lparr>Start = 30000, End = 30999, Namespaces = [], Labels = [(''tier'', ''web'')],
                 Description = []\<rparr>"

definition greenRange :: PortRange where
  "greenRange = \<lparr>Start = 31000, End = 31999, Namespaces = [''shop''], Labels = [(''app'', ''shop'')],
                  Description = []\<rparr>"

definition labelConfig :: Config where
  "labelConfig =
     \<lparr>PortRanges = [(''blue'', blueRange), (''green'', greenRange)], DefaultRange = ''blue'',
      AllowOutsideRangePorts = False,
      StorageConfig = \<lparr>ConfigMapName = ''nodeport-allocator-state'',
                       ConfigMapNamespace = ''kube-system'', RetryAttempts = 3,
                       RetryDelay = ''1s''\<rparr>,
      LogLevel = ''info''\<rparr>"

definition shopLabels :: "string \<rightharpoonup> string" where
  "shopLabels = [''tier'' \<mapsto> ''web'', ''app'' \<mapsto> ''shop'']"

text \<open>
  The configuration of the README: three ranges bound to namespaces and the range
  \<open>default\<close> with the wildcard, and a visit of that map which meets \<open>default\<close> first.
\<close>

definition productionRange :: PortRange where
  "productionRange = \<lparr>Start = 30000, End = 30999, Namespaces = [''prod'', ''production''],
                       Labels = [], Description = []\<rparr>"

definition stagingRange :: PortRange where
  "stagingRange = \<lparr>Start = 31000, End = 31499, Namespaces = [''stage'', ''staging''],
                    Labels = [], Description = []\<rparr>"

definition developmentRange :: PortRange where
  "developmentRange = \<lparr>Start = 31500, End = 31999, Namespaces = [''dev'', ''development''],
                        Labels = [], Description = []\<rparr>"

definition defaultRange :: PortRange where
  "defaultRange = \<lparr>Start = 32000, End = 32767, Namespaces = [''*''], Labels = [],
                    Description = []\<rparr>"

definition readmeConfig :: Config where
  "readmeConfig =
     \<lparr>PortRanges = [(''production'', productionRange), (''staging'', stagingRange),
                    (''development'', developmentRange), (''default'', defaultRange)],
      DefaultRange = ''default'',
      AllowOutsideRangePorts = False,
      StorageConfig = \<lparr>ConfigMapName = ''nodeport-allocator-state'',
                       ConfigMapNamespace = ''kube-system'', RetryAttempts = 3,
                       RetryDelay = ''1s''\<rparr>,
      LogLevel = ''info''\<rparr>"

definition defaultFirst :: "(string \<times> PortRange) list" where
  "defaultFirst = [(''default'', defaultRange), (''production'', productionRange),
                   (''staging'', stagingRange), (''development'', developmentRange)]"

text \<open>
  The manager of the \<open>dev\<close> configuration after \<open>Initialize\<close> with nothing stored, a
  Service in \<open>dev\<close> with the given node ports, and whether a range of a manager has a
  port in use. \<open>e5Manager\<close> is the state of scenario E5: port 31600 is in use (and
  saved), everything else is free.
\<close>

definition emptyDevBits :: BitSet where
  "emptyDevBits = \<lparr>bits = [0, 0, 0, 0, 0, 0, 0, 0], size_bs = 500, offset = 31500\<rparr>"

definition devManager :: "bool \<Rightarrow> Manager" where
  "devManager allow =
     \<lparr>config_m = devConfig allow, storage_m = noStorage,
      ranges = [''dev'' \<mapsto> \<lparr>name = ''dev'', config = devRange, bitSet = Some emptyDevBits\<rparr>]\<rparr>"

definition svc :: "int list \<Rightarrow> Service" where
  "svc nodePorts =
     \<lparr>Namespace = ''dev'', ServiceName = ''s'', ServiceLabels = Map.empty,
      Ports = map (\<lambda>p. \<lparr>Name = ''p'', NodePort = p\<rparr>) nodePorts\<rparr>"

definition usedIn :: "Manager \<Rightarrow> string \<Rightarrow> int \<Rightarrow> (error + bool) option" where
  "usedIn m rangeName port = map_option (\<lambda>pr. IsPortUsed pr port) (ranges m rangeName)"

definition e5Bits :: BitSet where
  "e5Bits = \<lparr>bits = [0, 68719476736, 0, 0, 0, 0, 0, 0], size_bs = 500, offset = 31500\<rparr>"

definition e5Manager :: Manager where
  "e5Manager =
     \<lparr>config_m = devConfig False,
      storage_m = \<lparr>configMap = Some [''dev'' \<mapsto> Some (ToJSON e5Bits)], faults = []\<rparr>,
      ranges = [''dev'' \<mapsto> \<lparr>name = ''dev'', config = devRange, bitSet = Some e5Bits\<rparr>]\<rparr>"

section \<open>Arithmetic of the BitSet\<close>

lemma wrap32_id: "- 2147483648 \<le> x \<Longrightarrow> x < 2147483648 \<Longrightarrow> wrap32 x = x"
  by (simp add: wrap32_def)

lemma go_div_nonneg: "0 \<le> a \<Longrightarrow> go_div a bitsPerWord = a div 64"
  by (cases "a = 0") (simp_all add: go_div_def bitsPerWord_def)

lemma go_mod_nonneg: "0 \<le> a \<Longrightarrow> go_mod a bitsPerWord = a mod 64"
  using go_div_nonneg [of a] by (simp add: go_mod_def bitsPerWord_def minus_mult_div_eq_mod)

lemma and_mask_bit: "n < 64 \<Longrightarrow> ((w :: 64 word) AND push_bit n 1 = 0) \<longleftrightarrow> \<not> bit w n"
  by (simp add: push_bit_of_1 and_exp_eq_0_iff_not_bit)

lemma words_cover:
  fixes s :: int
  assumes "0 \<le> s"
  shows "int (nat ((s + 63) div 64)) * 64 < s + 64" and "s \<le> int (nat ((s + 63) div 64)) * 64"
proof -
  have q: "0 \<le> (s + 63) div 64" using assms by simp
  have e: "(s + 63) div 64 * 64 + (s + 63) mod 64 = s + 63" by simp
  have m: "0 \<le> (s + 63) mod 64" "(s + 63) mod 64 < 64" by simp_all
  show "int (nat ((s + 63) div 64)) * 64 < s + 64" using q e m by simp
  show "s \<le> int (nat ((s + 63) div 64)) * 64" using q e m by simp
qed

lemma chunk_split:
  fixes j wi :: nat
  assumes "wi * 64 \<le> j" "j < Suc wi * 64"
  shows "\<exists>c<64. j = wi * 64 + c"
  using assms by (intro exI [of _ "j - wi * 64"]) simp

lemma limit_wf: "wf_bs bs \<Longrightarrow> limit bs = offset bs + size_bs bs"
  by (simp add: wf_bs_def limit_def wrap32_id)

lemma index_wf:
  assumes "wf_bs bs" "offset bs \<le> p" "p < offset bs + size_bs bs"
  defines "k \<equiv> nat (p - offset bs)"
  shows "wrap32 (p - offset bs) = p - offset bs"
    and "go_div (p - offset bs) bitsPerWord = int (k div 64)"
    and "go_mod (p - offset bs) bitsPerWord = int (k mod 64)"
    and "k div 64 < length (bits bs)"
    and "int k < size_bs bs"
proof -
  have pos: "0 \<le> p - offset bs" "p - offset bs < size_bs bs" using assms by auto
  then have k: "p - offset bs = int k" by (simp add: k_def)
  show "wrap32 (p - offset bs) = p - offset bs"
    using assms pos by (simp add: wrap32_id wf_bs_def)
  show "go_div (p - offset bs) bitsPerWord = int (k div 64)"
    unfolding k by (simp add: go_div_nonneg zdiv_int)
  show "go_mod (p - offset bs) bitsPerWord = int (k mod 64)"
    unfolding k by (simp add: go_mod_nonneg zmod_int)
  show "int k < size_bs bs" using pos by (simp add: k_def)
  then show "k div 64 < length (bits bs)"
    using assms(1) by (simp add: wf_bs_def)
qed

lemma Test_wf:
  assumes "wf_bs bs" "offset bs \<le> p" "p < offset bs + size_bs bs"
  shows "Test bs p = Inr (holds bs (nat (p - offset bs)))"
  using assms(2,3) and_mask_bit [of "nat (p - offset bs) mod 64" "bits bs ! (nat (p - offset bs) div 64)"]
  by (simp add: Test_def limit_wf [OF assms(1)] index_wf [OF assms] Let_def linorder_not_le holds_def)

lemma Test_outside:
  assumes "wf_bs bs" "p < offset bs \<or> offset bs + size_bs bs \<le> p"
  shows "Test bs p = Inr False"
  using assms(2) by (auto simp add: Test_def limit_wf [OF assms(1)])

lemma Set_wf:
  assumes "wf_bs bs" "offset bs \<le> p" "p < offset bs + size_bs bs"
  shows "Set bs p = Inr (bs\<lparr>bits := (bits bs)[nat (p - offset bs) div 64 :=
           (bits bs ! (nat (p - offset bs) div 64)) OR push_bit (nat (p - offset bs) mod 64) 1]\<rparr>)"
  using assms(2,3)
  by (simp add: Set_def limit_wf [OF assms(1)] index_wf [OF assms] Let_def linorder_not_le)

lemma Clear_wf:
  assumes "wf_bs bs" "offset bs \<le> p" "p < offset bs + size_bs bs"
  shows "Clear bs p = Inr (bs\<lparr>bits := (bits bs)[nat (p - offset bs) div 64 :=
           (bits bs ! (nat (p - offset bs) div 64)) AND NOT (push_bit (nat (p - offset bs) mod 64) 1)]\<rparr>)"
  using assms(2,3)
  by (simp add: Clear_def limit_wf [OF assms(1)] index_wf [OF assms] Let_def linorder_not_le)

lemma or_and_not_restore:
  "n < 64 \<Longrightarrow> \<not> bit (w :: 64 word) n \<Longrightarrow> (w OR push_bit n 1) AND NOT (push_bit n 1) = w"
  by (rule bit_eqI) (auto simp add: bit_simps)

lemma and_not_or_restore:
  "n < 64 \<Longrightarrow> bit (w :: 64 word) n \<Longrightarrow> (w AND NOT (push_bit n 1)) OR push_bit n 1 = w"
  by (rule bit_eqI) (auto simp add: bit_simps)


lemma scanBits_end: "64 \<le> bi \<Longrightarrow> scanBits bs wi w bi = None"
  by (subst scanBits.simps) (simp add: bitsPerWord_def)

lemma scanBits_step:
  assumes "wf_bs bs" "wi < length (bits bs)" "bi < 64"
  shows "scanBits bs wi w bi =
           (if \<not> bit w bi \<and> int (wi * 64 + bi) < size_bs bs
            then Some (offset bs + int (wi * 64 + bi))
            else scanBits bs wi w (Suc bi))"
proof -
  have len: "int (length (bits bs)) * 64 < size_bs bs + 64"
    using assms(1) words_cover(1) [of "size_bs bs"] by (simp add: wf_bs_def)
  have k: "int wi * 64 + int bi < size_bs bs + 64"
    using len assms(2,3) by linarith
  have w1: "wrap32 (int wi * 64 + int bi) = int wi * 64 + int bi"
    using k assms(1) by (intro wrap32_id) (auto simp: wf_bs_def)
  have w2: "wrap32 (offset bs + (int wi * 64 + int bi)) = offset bs + (int wi * 64 + int bi)"
    using k assms(1) by (intro wrap32_id) (auto simp: wf_bs_def)
  show ?thesis
    using assms(3)
    by (subst scanBits.simps)
       (simp add: bitsPerWord_def w1 w2 limit_wf [OF assms(1)] push_bit_of_1 and_exp_eq_0_iff_not_bit Let_def)
qed

lemma scanBits_None:
  assumes "wf_bs bs" "wi < length (bits bs)"
  shows "scanBits bs wi w bi = None \<Longrightarrow> bi \<le> b \<Longrightarrow> b < 64 \<Longrightarrow>
         bit w b \<or> size_bs bs \<le> int (wi * 64 + b)"
proof (induction "64 - bi" arbitrary: bi)
  case 0
  then show ?case by simp
next
  case (Suc n)
  then have bi: "bi < 64" by simp
  from Suc.prems(1) have step: "bit w bi \<or> size_bs bs \<le> int (wi * 64 + bi)"
    and rest: "scanBits bs wi w (Suc bi) = None"
    by (auto simp: scanBits_step [OF assms bi] split: if_splits)
  show ?case
  proof (cases "b = bi")
    case True
    with step show ?thesis by simp
  next
    case False
    with Suc.prems have "Suc bi \<le> b" by simp
    moreover from Suc.hyps(2) have "n = 64 - Suc bi" by simp
    ultimately show ?thesis using Suc.hyps(1) rest Suc.prems(3) by blast
  qed
qed

lemma scanBits_Some:
  assumes "wf_bs bs" "wi < length (bits bs)"
  shows "scanBits bs wi w bi = Some p \<Longrightarrow>
         \<exists>b. bi \<le> b \<and> b < 64 \<and> \<not> bit w b \<and> int (wi * 64 + b) < size_bs bs \<and>
             p = offset bs + int (wi * 64 + b) \<and>
             (\<forall>c. bi \<le> c \<and> c < b \<longrightarrow> bit w c)"
proof (induction "64 - bi" arbitrary: bi)
  case 0
  then show ?case by (simp add: scanBits_end)
next
  case (Suc n)
  then have bi: "bi < 64" by simp
  show ?case
  proof (cases "\<not> bit w bi \<and> int (wi * 64 + bi) < size_bs bs")
    case True
    with Suc.prems have "p = offset bs + int (wi * 64 + bi)"
      by (simp add: scanBits_step [OF assms bi])
    with True bi show ?thesis by (intro exI [of _ bi]) auto
  next
    case False
    with Suc.prems have rest: "scanBits bs wi w (Suc bi) = Some p"
      by (auto simp add: scanBits_step [OF assms bi] split: if_splits)
    from Suc.hyps(2) have "n = 64 - Suc bi" by simp
    from Suc.hyps(1) [OF this rest] obtain b where b:
      "Suc bi \<le> b" "b < 64" "\<not> bit w b" "int (wi * 64 + b) < size_bs bs"
      "p = offset bs + int (wi * 64 + b)" "\<forall>c. Suc bi \<le> c \<and> c < b \<longrightarrow> bit w c"
      by blast
    from False b(1,4) have "bit w bi" by auto
    with b(6) have "\<forall>c. bi \<le> c \<and> c < b \<longrightarrow> bit w c"
      by (metis Suc_leI le_neq_implies_less)
    with b show ?thesis by (intro exI [of _ b]) auto
  qed
qed

lemma holds_word: "b < 64 \<Longrightarrow> holds bs (wi * 64 + b) = bit (bits bs ! wi) b"
  by (simp add: holds_def)

lemma word_full: "bit (NOT 0 :: 64 word) b \<longleftrightarrow> b < 64"
  by (simp add: bit_simps)

lemma scanWords_wf:
  assumes wf: "wf_bs bs"
  shows "bits bs = pre @ ws \<Longrightarrow> length pre = wi \<Longrightarrow>
     (case scanWords bs wi ws of
        (p, found) \<Rightarrow>
          if found then
            (\<exists>k. wi * 64 \<le> k \<and> int k < size_bs bs \<and> \<not> holds bs k \<and> p = offset bs + int k \<and>
                 (\<forall>j. wi * 64 \<le> j \<and> j < k \<longrightarrow> holds bs j))
          else p = 0 \<and> (\<forall>k. wi * 64 \<le> k \<and> int k < size_bs bs \<longrightarrow> holds bs k))"
proof (induction ws arbitrary: pre wi)
  case Nil
  then have "wi = length (bits bs)" by simp
  moreover have "size_bs bs \<le> int (length (bits bs)) * 64"
    using wf words_cover(2) [of "size_bs bs"] by (simp add: wf_bs_def)
  ultimately show ?case by auto
next
  case (Cons word rest)
  have wi: "wi < length (bits bs)" and word: "bits bs ! wi = word"
    using Cons.prems by auto
  have IH: "case scanWords bs (Suc wi) rest of
        (p, found) \<Rightarrow>
          if found then
            (\<exists>k. Suc wi * 64 \<le> k \<and> int k < size_bs bs \<and> \<not> holds bs k \<and> p = offset bs + int k \<and>
                 (\<forall>j. Suc wi * 64 \<le> j \<and> j < k \<longrightarrow> holds bs j))
          else p = 0 \<and> (\<forall>k. Suc wi * 64 \<le> k \<and> int k < size_bs bs \<longrightarrow> holds bs k)"
    using Cons.IH [of "pre @ [word]" "Suc wi"] Cons.prems by simp
  note split = chunk_split [of wi]
  show ?case
  proof (cases "word \<noteq> NOT 0 \<and> scanBits bs wi word 0 \<noteq> None")
    case True
    then obtain p where p: "scanBits bs wi word 0 = Some p" by auto
    from scanBits_Some [OF wf wi p] obtain b where b:
      "b < 64" "\<not> bit word b" "int (wi * 64 + b) < size_bs bs"
      "p = offset bs + int (wi * 64 + b)" "\<forall>c. c < b \<longrightarrow> bit word c"
      by auto
    have "\<not> holds bs (wi * 64 + b)" using b(1,2) word by (simp add: holds_word)
    moreover have "\<forall>j. wi * 64 \<le> j \<and> j < wi * 64 + b \<longrightarrow> holds bs j"
    proof (intro allI impI)
      fix j assume j: "wi * 64 \<le> j \<and> j < wi * 64 + b"
      with b(1) obtain c where c: "c < 64" "j = wi * 64 + c" using split [of j] by auto
      with j b(5) word show "holds bs j" by (simp add: holds_word)
    qed
    ultimately show ?thesis
      using True p b(3,4) by (auto intro!: exI [of _ "wi * 64 + b"])
  next
    case False
    have full: "\<And>c. c < 64 \<Longrightarrow> bit word c \<or> size_bs bs \<le> int (wi * 64 + c)"
    proof (cases "word = NOT 0")
      case True
      then show "\<And>c. c < 64 \<Longrightarrow> bit word c \<or> size_bs bs \<le> int (wi * 64 + c)"
        by (simp add: word_full)
    next
      case F: False
      with False have "scanBits bs wi word 0 = None" by simp
      from scanBits_None [OF wf wi this]
      show "\<And>c. c < 64 \<Longrightarrow> bit word c \<or> size_bs bs \<le> int (wi * 64 + c)" by simp
    qed
    have low: "holds bs j" if "wi * 64 \<le> j" "j < Suc wi * 64" "int j < size_bs bs" for j
    proof -
      from split [OF that(1,2)] obtain c where c: "c < 64" "j = wi * 64 + c" by auto
      with full [OF c(1)] that(3) word show ?thesis by (simp add: holds_word)
    qed
    have eq: "scanWords bs wi (word # rest) = scanWords bs (Suc wi) rest"
      using False by auto
    obtain p found where r: "scanWords bs (Suc wi) rest = (p, found)" by force
    show ?thesis
    proof (cases found)
      case True
      with IH r obtain k where k: "Suc wi * 64 \<le> k" "int k < size_bs bs" "\<not> holds bs k"
        "p = offset bs + int k" "\<forall>j. Suc wi * 64 \<le> j \<and> j < k \<longrightarrow> holds bs j"
        by auto
      have "\<forall>j. wi * 64 \<le> j \<and> j < k \<longrightarrow> holds bs j"
      proof (intro allI impI)
        fix j assume j: "wi * 64 \<le> j \<and> j < k"
        show "holds bs j"
        proof (cases "j < Suc wi * 64")
          case True
          with j k(2) show ?thesis by (intro low) auto
        next
          case False
          with j k(5) show ?thesis by auto
        qed
      qed
      with k True show ?thesis
        unfolding eq r by (auto intro!: exI [of _ k])
    next
      case False
      with IH r have p0: "p = 0"
        and hi: "\<forall>k. Suc wi * 64 \<le> k \<and> int k < size_bs bs \<longrightarrow> holds bs k"
        by auto
      have "\<forall>k. wi * 64 \<le> k \<and> int k < size_bs bs \<longrightarrow> holds bs k"
      proof (intro allI impI)
        fix k assume k: "wi * 64 \<le> k \<and> int k < size_bs bs"
        show "holds bs k"
        proof (cases "k < Suc wi * 64")
          case True
          with k show ?thesis by (intro low) auto
        next
          case False
          with k hi show ?thesis by auto
        qed
      qed
      with p0 False show ?thesis unfolding eq r by simp
    qed
  qed
qed

lemma go_index_nonneg:
  assumes "0 \<le> go_div a bitsPerWord" "0 \<le> go_mod a bitsPerWord"
  shows "0 \<le> a"
proof (rule ccontr)
  assume "\<not> 0 \<le> a"
  then have neg: "a < 0" by simp
  then have d: "go_div a bitsPerWord = - ((- a) div 64)"
    by (simp add: go_div_def bitsPerWord_def)
  have "0 \<le> (- a) div 64" using neg by simp
  with assms(1) d have "(- a) div 64 = 0" by simp
  with d have "go_mod a bitsPerWord = a" by (simp add: go_mod_def)
  with assms(2) neg show False by simp
qed

lemma bitIndexOf_bound: "addressable bs port \<Longrightarrow> bitIndexOf bs port < 64"
proof -
  assume a: "addressable bs port"
  then have "0 \<le> wrap32 (port - offset bs)"
    using go_index_nonneg [of "wrap32 (port - offset bs)"] by (simp add: addressable_def)
  then show ?thesis by (simp add: bitIndexOf_def go_mod_nonneg)
qed

lemma wordIndexOf_bound: "addressable bs port \<Longrightarrow> wordIndexOf bs port < length (bits bs)"
  by (simp add: addressable_def wordIndexOf_def nat_less_iff)

lemma Set_addr:
  "Set bs port = (if addressable bs port
      then Inr (bs\<lparr>bits := (bits bs)[wordIndexOf bs port :=
                 (bits bs ! wordIndexOf bs port) OR push_bit (bitIndexOf bs port) 1]\<rparr>)
      else if port < offset bs \<or> port \<ge> limit bs
        then Inl (BitOutOfRange port (offset bs) (wrap32 (limit bs - 1)))
        else Inl Panic)"
proof (cases "port < offset bs \<or> port \<ge> limit bs")
  case True
  then have "\<not> addressable bs port" by (auto simp: addressable_def)
  with True show ?thesis by (simp add: Set_def)
next
  case False
  then show ?thesis
    by (simp add: Set_def addressable_def wordIndexOf_def bitIndexOf_def Let_def
        linorder_not_less linorder_not_le)
qed

lemma Clear_addr:
  "Clear bs port = (if addressable bs port
      then Inr (bs\<lparr>bits := (bits bs)[wordIndexOf bs port :=
                 (bits bs ! wordIndexOf bs port) AND NOT (push_bit (bitIndexOf bs port) 1)]\<rparr>)
      else if port < offset bs \<or> port \<ge> limit bs
        then Inl (BitOutOfRange port (offset bs) (wrap32 (limit bs - 1)))
        else Inl Panic)"
proof (cases "port < offset bs \<or> port \<ge> limit bs")
  case True
  then have "\<not> addressable bs port" by (auto simp: addressable_def)
  with True show ?thesis by (simp add: Clear_def)
next
  case False
  then show ?thesis
    by (simp add: Clear_def addressable_def wordIndexOf_def bitIndexOf_def Let_def
        linorder_not_less linorder_not_le)
qed

lemma Test_addr:
  "Test bs port = (if addressable bs port
      then Inr (bit (bits bs ! wordIndexOf bs port) (bitIndexOf bs port))
      else if port < offset bs \<or> port \<ge> limit bs then Inr False
        else Inl Panic)"
proof (cases "port < offset bs \<or> port \<ge> limit bs")
  case True
  then have "\<not> addressable bs port" by (auto simp: addressable_def)
  with True show ?thesis by (simp add: Test_def)
next
  case False
  then show ?thesis
    by (simp add: Test_def addressable_def wordIndexOf_def bitIndexOf_def Let_def
        linorder_not_less linorder_not_le push_bit_of_1 and_exp_eq_0_iff_not_bit)
qed

lemma addressable_bits_update [simp]:
  "addressable (bs\<lparr>bits := (bits bs)[i := w]\<rparr>) port = addressable bs port"
  "wordIndexOf (bs\<lparr>bits := ws\<rparr>) port = wordIndexOf bs port"
  "bitIndexOf (bs\<lparr>bits := ws\<rparr>) port = bitIndexOf bs port"
  by (simp_all add: addressable_def wordIndexOf_def bitIndexOf_def limit_def)

lemma Clear_after_Set:
  assumes "Set bs port = Inr marked" "Test bs port = Inr False"
  shows "Clear marked port = Inr bs"
proof -
  have a: "addressable bs port" using assms(1) by (simp add: Set_addr split: if_splits)
  have m: "marked = bs\<lparr>bits := (bits bs)[wordIndexOf bs port :=
                 (bits bs ! wordIndexOf bs port) OR push_bit (bitIndexOf bs port) 1]\<rparr>"
    using assms(1) a by (simp add: Set_addr)
  have c: "\<not> bit (bits bs ! wordIndexOf bs port) (bitIndexOf bs port)"
    using assms(2) a by (simp add: Test_addr)
  show ?thesis
    using a wordIndexOf_bound [OF a] or_and_not_restore [OF bitIndexOf_bound [OF a] c]
    by (simp add: Clear_addr m)
qed

lemma Set_after_Clear:
  assumes "Clear bs port = Inr cleared" "Test bs port = Inr True"
  shows "Set cleared port = Inr bs"
proof -
  have a: "addressable bs port" using assms(1) by (simp add: Clear_addr split: if_splits)
  have m: "cleared = bs\<lparr>bits := (bits bs)[wordIndexOf bs port :=
                 (bits bs ! wordIndexOf bs port) AND NOT (push_bit (bitIndexOf bs port) 1)]\<rparr>"
    using assms(1) a by (simp add: Clear_addr)
  have c: "bit (bits bs ! wordIndexOf bs port) (bitIndexOf bs port)"
    using assms(2) a by (simp add: Test_addr)
  show ?thesis
    using a wordIndexOf_bound [OF a] and_not_or_restore [OF bitIndexOf_bound [OF a] c]
    by (simp add: Set_addr m)
qed

lemma FindFirstClear_found:
  assumes "wf_bs bs" "FindFirstClear bs = (p, True)"
  shows "\<exists>k. int k < size_bs bs \<and> \<not> holds bs k \<and> p = offset bs + int k \<and> (\<forall>j<k. holds bs j)"
  using scanWords_wf [OF assms(1), of "[]" "bits bs" 0] assms(2)
  by (auto simp: FindFirstClear_def)

lemma FindFirstClear_full:
  assumes "wf_bs bs" "FindFirstClear bs = (p, False)"
  shows "p = 0 \<and> (\<forall>k. int k < size_bs bs \<longrightarrow> holds bs k)"
  using scanWords_wf [OF assms(1), of "[]" "bits bs" 0] assms(2)
  by (auto simp: FindFirstClear_def)

lemma Set_holds:
  assumes "wf_bs bs" "int k < size_bs bs"
  shows "\<exists>bs'. Set bs (offset bs + int k) = Inr bs' \<and> wf_bs bs' \<and> offset bs' = offset bs \<and>
               size_bs bs' = size_bs bs \<and> (\<forall>j. holds bs' j \<longleftrightarrow> j = k \<or> holds bs j)"
proof -
  let ?p = "offset bs + int k"
  let ?bs' = "bs\<lparr>bits := (bits bs)[k div 64 := (bits bs ! (k div 64)) OR push_bit (k mod 64) 1]\<rparr>"
  have dom: "offset bs \<le> ?p" "?p < offset bs + size_bs bs" using assms by auto
  have k: "nat (?p - offset bs) = k" by simp
  have len: "k div 64 < length (bits bs)" using index_wf(4) [OF assms(1) dom] by (simp only: k)
  have set: "Set bs ?p = Inr ?bs'" using Set_wf [OF assms(1) dom] by (simp only: k)
  have wf: "wf_bs ?bs'" using assms(1) by (simp add: wf_bs_def)
  have "holds ?bs' j \<longleftrightarrow> j = k \<or> holds bs j" for j
  proof (cases "j div 64 = k div 64")
    case True
    have "j mod 64 = k mod 64 \<longleftrightarrow> j = k"
      using True by (metis div_mult_mod_eq)
    then show ?thesis
      using True len by (auto simp add: holds_def bit_simps)
  next
    case False
    then have "j \<noteq> k" by auto
    with False show ?thesis by (simp add: holds_def)
  qed
  with set wf show ?thesis by (intro exI [of _ ?bs']) simp
qed


text \<open>
  \<open>FindFirstClear\<close> on a well-formed BitSet returns the smallest port of the domain that
  is clear, and finds none only when every port of the domain is set.
\<close>

lemma FindFirstClear_least:
  assumes "wf_bs bs" "FindFirstClear bs = (p, True)"
  shows "offset bs \<le> p \<and> p < offset bs + size_bs bs \<and> Test bs p = Inr False
       \<and> (\<forall>q. offset bs \<le> q \<and> q < p \<longrightarrow> Test bs q = Inr True)"
proof -
  from FindFirstClear_found [OF assms] obtain k where k:
    "int k < size_bs bs" "\<not> holds bs k" "p = offset bs + int k" "\<forall>j<k. holds bs j"
    by blast
  have "Test bs q = Inr True" if "offset bs \<le> q" "q < p" for q
  proof -
    have "nat (q - offset bs) < k" using that k(3) by simp
    with k(4) have "holds bs (nat (q - offset bs))" by simp
    moreover have "q < offset bs + size_bs bs" using that k(1,3) by simp
    ultimately show ?thesis using Test_wf [OF assms(1) that(1)] by simp
  qed
  moreover have "Test bs p = Inr False"
    using Test_wf [OF assms(1), of p] k(1,2,3) by simp
  ultimately show ?thesis using k(1,3) by simp
qed

lemma FindFirstClear_none:
  assumes "wf_bs bs" "FindFirstClear bs = (p, False)"
  shows "p = 0 \<and> (\<forall>q. offset bs \<le> q \<and> q < offset bs + size_bs bs \<longrightarrow> Test bs q = Inr True)"
proof -
  from FindFirstClear_full [OF assms] have p: "p = 0"
    and full: "\<forall>k. int k < size_bs bs \<longrightarrow> holds bs k"
    by simp_all
  have "Test bs q = Inr True" if "offset bs \<le> q" "q < offset bs + size_bs bs" for q
  proof -
    have "int (nat (q - offset bs)) < size_bs bs" using that by simp
    with full have "holds bs (nat (q - offset bs))" by blast
    then show ?thesis using Test_wf [OF assms(1) that] by simp
  qed
  with p show ?thesis by simp
qed


section \<open>Auto-allocation is first-fit\<close>

lemma NewBitSet_wf:
  assumes "0 \<le> a" "a \<le> b" "b + 64 < 2147483648"
  shows "NewBitSet a b =
           Inr \<lparr>bits = replicate (nat ((b - a + 64) div 64)) 0, size_bs = b - a + 1, offset = a\<rparr>"
proof -
  have w1: "wrap32 (b - a) = b - a" using assms by (intro wrap32_id) auto
  have w2: "wrap32 (b - a + 1) = b - a + 1" using assms by (intro wrap32_id) auto
  have d: "go_div (64 + (b - a)) 64 = (64 + (b - a)) div 64"
    using assms go_div_nonneg [of "64 + (b - a)"] by (simp add: bitsPerWord_def)
  have c: "b - a + 64 = 64 + (b - a)" by simp
  have "0 \<le> (64 + (b - a)) div 64" using assms by simp
  then show ?thesis
    unfolding c by (simp add: NewBitSet_def w1 w2 Let_def bitsPerWord_def d)
qed

lemma NewBitSet_prefixFull:
  assumes "0 \<le> a" "a \<le> b" "b + 64 < 2147483648" "NewBitSet a b = Inr bs"
  shows "prefixFull bs 0" "offset bs = a" "size_bs bs = b - a + 1"
proof -
  have bs: "bs = \<lparr>bits = replicate (nat ((b - a + 64) div 64)) 0, size_bs = b - a + 1, offset = a\<rparr>"
    using NewBitSet_wf [OF assms(1-3)] assms(4) by simp
  show "offset bs = a" "size_bs bs = b - a + 1" by (simp_all add: bs)
  have wf: "wf_bs bs" using assms(1-3) by (simp add: bs wf_bs_def)
  have "\<not> holds bs j" if "int j < size_bs bs" for j
  proof -
    have dom: "offset bs \<le> offset bs + int j" "offset bs + int j < offset bs + size_bs bs"
      using that by auto
    have "j div 64 < length (bits bs)" using index_wf(4) [OF wf dom] by simp
    then show ?thesis by (simp add: holds_def bs)
  qed
  with wf assms(2) show "prefixFull bs 0" by (simp add: prefixFull_def bs)
qed

lemma SaveBitSet_cases:
  "(\<exists>s'. SaveBitSet s n bs = (Some StorageFailure, s') \<and> faults s \<noteq> [])
   \<or> (\<exists>s'. SaveBitSet s n bs = (None, s') \<and> (faults s = [] \<longrightarrow> faults s' = []))"
  by (cases "faults s") (auto simp: SaveBitSet_def nextFault_def split: bool.splits)

lemma AllocatePort_auto_step:
  assumes full: "prefixFull bs k" and pr: "bitSet pr = Some bs"
    and run: "AllocatePort pr s 0 = (r, pr', s')"
  shows "(r = Inr (offset bs + int k) \<and> int k < size_bs bs \<and>
          (\<exists>bs'. bitSet pr' = Some bs' \<and> prefixFull bs' (Suc k) \<and> offset bs' = offset bs \<and>
                size_bs bs' = size_bs bs) \<and>
          (faults s = [] \<longrightarrow> faults s' = []))
       \<or> (isl r \<and> bitSet pr' = Some bs \<and> (faults s = [] \<longrightarrow> faults s' = [] \<and> size_bs bs \<le> int k))"
proof -
  have wf: "wf_bs bs" and kle: "int k \<le> size_bs bs"
    and hold: "\<And>j. int j < size_bs bs \<Longrightarrow> holds bs j \<longleftrightarrow> j < k"
    using full by (auto simp: prefixFull_def)
  obtain p found where ffc: "FindFirstClear bs = (p, found)" by force
  show ?thesis
  proof (cases found)
    case False
    with ffc have all: "\<forall>j. int j < size_bs bs \<longrightarrow> holds bs j"
      using FindFirstClear_full [OF wf, of p] by simp
    have "size_bs bs \<le> int k"
    proof (rule ccontr)
      assume "\<not> size_bs bs \<le> int k"
      then have "int k < size_bs bs" by simp
      with all hold [of k] show False by auto
    qed
    with run pr ffc False show ?thesis
      by (auto simp add: AllocatePort_def choosePort_def)
  next
    case True
    with ffc FindFirstClear_found [OF wf, of p] obtain k' where k':
      "int k' < size_bs bs" "\<not> holds bs k'" "p = offset bs + int k'" "\<forall>j<k'. holds bs j"
      by auto
    have "k' = k"
    proof (rule ccontr)
      assume ne: "k' \<noteq> k"
      from k'(1,2) hold [of k'] have "k \<le> k'" by auto
      with ne have lt: "k < k'" by simp
      with k'(4) have "holds bs k" by simp
      moreover from lt k'(1) have "int k < size_bs bs" by simp
      ultimately show False using hold [of k] by simp
    qed
    with k' have k: "int k < size_bs bs" "\<not> holds bs k" "p = offset bs + int k" by auto
    from Set_holds [OF wf k(1)] obtain marked where marked:
      "Set bs p = Inr marked" "wf_bs marked" "offset marked = offset bs"
      "size_bs marked = size_bs bs" "\<forall>j. holds marked j \<longleftrightarrow> j = k \<or> holds bs j"
      unfolding k(3) by blast
    have test: "Test bs p = Inr False"
      using Test_wf [OF wf, of p] k by simp
    have clear: "Clear marked p = Inr bs" by (rule Clear_after_Set [OF marked(1) test])
    have full': "prefixFull marked (Suc k)"
      unfolding prefixFull_def using marked(2,4,5) k(1) hold by auto
    have choose: "choosePort pr bs 0 = Inr p"
      using ffc True by (simp add: choosePort_def)
    from SaveBitSet_cases [of s "name pr" marked] show ?thesis
    proof (elim disjE exE conjE)
      fix s1 assume "SaveBitSet s (name pr) marked = (Some StorageFailure, s1)" "faults s \<noteq> []"
      with run pr choose marked(1) clear show ?thesis
        by (auto simp add: AllocatePort_def markAndSave_def)
    next
      fix s1 assume "SaveBitSet s (name pr) marked = (None, s1)" "faults s = [] \<longrightarrow> faults s1 = []"
      with run pr choose marked(1,3,4) full' k show ?thesis
        by (auto simp add: AllocatePort_def markAndSave_def)
    qed
  qed
qed


lemma granted_autoAllocations:
  assumes "prefixFull bs k" "bitSet pr = Some bs"
  shows "granted (autoAllocations pr s n) =
           map (\<lambda>i. offset bs + int k + int i) [0..<length (granted (autoAllocations pr s n))]"
  using assms
proof (induction n arbitrary: pr s bs k)
  case 0
  then show ?case by simp
next
  case (Suc n)
  obtain r pr' s' where run: "AllocatePort pr s 0 = (r, pr', s')"
    by (metis prod_cases3)
  from AllocatePort_auto_step [OF Suc.prems run] show ?case
  proof (elim disjE conjE exE)
    fix bs'
    assume r: "r = Inr (offset bs + int k)" and bs': "bitSet pr' = Some bs'"
      "prefixFull bs' (Suc k)" "offset bs' = offset bs" "size_bs bs' = size_bs bs"
    from Suc.IH [OF bs'(2,1), of s'] bs'(3)
    have rest: "granted (autoAllocations pr' s' n) =
       map (\<lambda>i. offset bs + int k + int (Suc i)) [0..<length (granted (autoAllocations pr' s' n))]"
      by (simp add: ac_simps)
    show ?thesis
      unfolding autoAllocations.simps run prod.case r granted.simps length_Cons map_upt_Suc
      using rest by simp
  next
    assume r: "isl r" and bs': "bitSet pr' = Some bs"
    from r obtain e where e: "r = Inl e" by (cases r) auto
    from Suc.IH [OF Suc.prems(1) bs', of s'] show ?thesis
      by (simp add: run e)
  qed
qed

lemma all_autoAllocations:
  assumes "prefixFull bs k" "bitSet pr = Some bs" "faults s = []" "int k + int n \<le> size_bs bs"
  shows "autoAllocations pr s n = map (\<lambda>i. Inr (offset bs + int k + int i)) [0..<n]"
  using assms
proof (induction n arbitrary: pr s bs k)
  case 0
  then show ?case by simp
next
  case (Suc n)
  obtain r pr' s' where run: "AllocatePort pr s 0 = (r, pr', s')"
    by (metis prod_cases3)
  from AllocatePort_auto_step [OF Suc.prems(1,2) run] Suc.prems(3,4)
  obtain bs' where r: "r = Inr (offset bs + int k)" and bs': "bitSet pr' = Some bs'"
      "prefixFull bs' (Suc k)" "offset bs' = offset bs" "faults s' = []"
      and size: "size_bs bs' = size_bs bs"
    by auto
  from Suc.prems(4) size have "int (Suc k) + int n \<le> size_bs bs'" by simp
  from Suc.IH [OF bs'(2,1,4) this] bs'(3)
  have rest: "autoAllocations pr' s' n = map (\<lambda>i. Inr (offset bs + int k + int (Suc i))) [0..<n]"
    by (simp add: ac_simps)
  show ?case
    unfolding autoAllocations.simps run prod.case r map_upt_Suc
    using rest by simp
qed


text \<open>
  C9. In an empty range \<open>[a, b]\<close> (the BitSet that \<open>NewBitSet a b\<close> builds), whatever
  the storage does, the ports returned by the successful calls among \<open>n\<close> calls
  \<open>AllocatePort(ctx, 0)\<close> in a row are \<open>a, a + 1, \<dots>\<close> in that order: the N-th success
  returns \<open>a + N - 1\<close>. When no save fails and \<open>n\<close> is at most the size of the range,
  every call succeeds, so the calls return exactly \<open>a, \<dots>, a + n - 1\<close>.
\<close>

theorem first_fit_auto_allocation:
  assumes "0 \<le> a" "a \<le> b" "b + 64 < 2147483648"
    and "NewBitSet a b = Inr bs" "bitSet pr = Some bs"
  shows "granted (autoAllocations pr s n) =
           map (\<lambda>i. a + int i) [0..<length (granted (autoAllocations pr s n))]
       \<and> (faults s = [] \<and> int n \<le> b - a + 1 \<longrightarrow>
            autoAllocations pr s n = map (\<lambda>i. Inr (a + int i)) [0..<n])"
proof -
  note empty = NewBitSet_prefixFull [OF assms(1-4)]
  have "granted (autoAllocations pr s n) =
          map (\<lambda>i. a + int i) [0..<length (granted (autoAllocations pr s n))]"
    using granted_autoAllocations [OF empty(1) assms(5), of s n] by (simp add: empty(2))
  moreover have "autoAllocations pr s n = map (\<lambda>i. Inr (a + int i)) [0..<n]"
    if "faults s = []" "int n \<le> b - a + 1"
    using all_autoAllocations [OF empty(1) assms(5) that(1), of n] that(2)
    by (simp add: empty(2,3))
  ultimately show ?thesis by blast
qed

theorem first_fit_auto_allocation_witness:
  "(0::int) \<le> 31500 \<and> (31500::int) \<le> 31501 \<and> (31501::int) + 64 < 2147483648
   \<and> NewBitSet 31500 31501 = Inr \<lparr>bits = [0], size_bs = 2, offset = 31500\<rparr>
   \<and> bitSet smallRange = Some \<lparr>bits = [0], size_bs = 2, offset = 31500\<rparr>
   \<and> faults noStorage = [] \<and> int 2 \<le> 31501 - 31500 + 1
   \<and> autoAllocations smallRange noStorage 2 = [Inr 31500, Inr 31501]
   \<and> granted (autoAllocations smallRange noStorage 3) =
       map (\<lambda>i. 31500 + int i) [0..<length (granted (autoAllocations smallRange noStorage 3))]"
proof -
  have h1: "(0::int) \<le> 31500" and h2: "(31500::int) \<le> 31501"
    and h3: "(31501::int) + 64 < 2147483648"
    by simp_all
  have h4: "NewBitSet 31500 31501 = Inr \<lparr>bits = [0], size_bs = 2, offset = 31500\<rparr>"
    by (simp add: NewBitSet_def wrap32_def go_div_def bitsPerWord_def)
  have h5: "bitSet smallRange = Some \<lparr>bits = [0], size_bs = 2, offset = 31500\<rparr>"
    by (simp add: smallRange_def)
  have h6: "faults noStorage = []" by (simp add: noStorage_def)
  have h7: "int 2 \<le> 31501 - 31500 + 1" by simp
  have two: "[0..<2] = [0, Suc 0]" by (simp add: upt_rec)
  from first_fit_auto_allocation [OF h1 h2 h3 h4 h5, of noStorage 2] h6 h7
  have "autoAllocations smallRange noStorage 2 = [Inr 31500, Inr 31501]"
    by (simp add: two)
  with first_fit_auto_allocation [OF h1 h2 h3 h4 h5, of noStorage 3] h1 h2 h3 h4 h5 h6 h7
  show ?thesis by simp
qed


section \<open>The BitSet in memory and the stored blob\<close>

lemma SaveBitSet_result:
  "(\<exists>s'. SaveBitSet s n bs = (Some StorageFailure, s'))
   \<or> (\<exists>s'. SaveBitSet s n bs = (None, s') \<and> persisted s' n = Some (Some (ToJSON bs)))"
proof (cases "nextFault s")
  case (Pair f s1)
  then show ?thesis
    by (cases f) (simp_all add: SaveBitSet_def persisted_def)
qed

lemma Set_keeps_wf:
  assumes "wf_bs bs" "Set bs port = Inr bs'"
  shows "wf_bs bs'"
proof -
  have "addressable bs port" using assms(2) by (simp add: Set_addr split: if_splits)
  with assms show ?thesis by (auto simp add: Set_addr wf_bs_def)
qed

lemma Clear_keeps_wf:
  assumes "wf_bs bs" "Clear bs port = Inr bs'"
  shows "wf_bs bs'"
proof -
  have "addressable bs port" using assms(2) by (simp add: Clear_addr split: if_splits)
  with assms show ?thesis by (auto simp add: Clear_addr wf_bs_def)
qed

lemma markAndSave_result:
  assumes "markAndSave pr s bs port = (err, pr', s')"
  shows "(err = None \<longrightarrow> agrees pr' s')
       \<and> (err \<noteq> None \<and> Test bs port = Inr False \<and> bitSet pr = Some bs \<longrightarrow> bitSet pr' = Some bs)
       \<and> (wf_bs bs \<and> bitSet pr = Some bs \<longrightarrow> (\<exists>b. bitSet pr' = Some b \<and> wf_bs b))"
proof (cases "Set bs port")
  case (Inl e)
  with assms show ?thesis by (auto simp add: markAndSave_def)
next
  case (Inr marked)
  have a: "addressable bs port" using Inr by (simp add: Set_addr split: if_splits)
  have m: "marked = bs\<lparr>bits := (bits bs)[wordIndexOf bs port :=
                 (bits bs ! wordIndexOf bs port) OR push_bit (bitIndexOf bs port) 1]\<rparr>"
    using Inr a by (simp add: Set_addr)
  have a': "addressable marked port" using a by (simp add: m)
  obtain restored where clear: "Clear marked port = Inr restored"
    using a' by (simp add: Clear_addr)
  have wfm: "wf_bs bs \<Longrightarrow> wf_bs marked" using Inr by (blast intro: Set_keeps_wf)
  have wfr: "wf_bs bs \<Longrightarrow> wf_bs restored" using wfm clear by (blast intro: Clear_keeps_wf)
  from SaveBitSet_result [of s "name pr" marked] show ?thesis
  proof (elim disjE exE conjE)
    fix s1 assume save: "SaveBitSet s (name pr) marked = (Some StorageFailure, s1)"
    have "Test bs port = Inr False \<Longrightarrow> restored = bs"
      using Clear_after_Set [OF Inr] clear by simp
    with assms Inr save clear wfr show ?thesis
      by (auto simp add: markAndSave_def)
  next
    fix s1 assume save: "SaveBitSet s (name pr) marked = (None, s1)"
      and p: "persisted s1 (name pr) = Some (Some (ToJSON marked))"
    with assms Inr wfm show ?thesis
      by (auto simp add: markAndSave_def agrees_def)
  qed
qed


lemma choosePort_clear:
  assumes "choosePort pr bs requestedPort = Inr port" "requestedPort = 0 \<longrightarrow> wf_bs bs"
  shows "Test bs port = Inr False"
proof (cases "requestedPort = 0")
  case True
  obtain p found where ffc: "FindFirstClear bs = (p, found)" by force
  with assms(1) True have f: "found" "p = port"
    by (auto simp add: choosePort_def split: if_splits)
  from assms(2) True have wf: "wf_bs bs" by simp
  from FindFirstClear_found [OF wf, of port] ffc f obtain k where
    "int k < size_bs bs" "\<not> holds bs k" "port = offset bs + int k"
    by auto
  then show ?thesis using Test_wf [OF wf, of port] by simp
next
  case False
  with assms(1) show ?thesis
    by (cases "Test bs requestedPort") (auto simp add: choosePort_def split: if_splits)
qed

lemma AllocatePort_result:
  assumes "AllocatePort pr s requestedPort = (res, pr', s')"
  shows "(\<not> isl res \<longrightarrow> agrees pr' s')
       \<and> (isl res \<and> (requestedPort = 0 \<longrightarrow> (\<forall>bs. bitSet pr = Some bs \<longrightarrow> wf_bs bs))
            \<longrightarrow> bitSet pr' = bitSet pr)"
proof (cases "bitSet pr")
  case None
  with assms show ?thesis by (auto simp add: AllocatePort_def)
next
  case (Some bs)
  show ?thesis
  proof (cases "choosePort pr bs requestedPort")
    case (Inl e)
    with assms Some have "res = Inl e" "pr' = pr" by (auto simp add: AllocatePort_def)
    then show ?thesis by simp
  next
    case (Inr port)
    obtain err pr1 s1 where ms: "markAndSave pr s bs port = (err, pr1, s1)"
      by (metis prod_cases3)
    from assms Some Inr ms have res: "res = (case err of Some e \<Rightarrow> Inl e | None \<Rightarrow> Inr port)"
      "pr' = pr1" "s' = s1"
      by (auto simp add: AllocatePort_def split: option.splits)
    note r = markAndSave_result [OF ms]
    have "Test bs port = Inr False" if "requestedPort = 0 \<longrightarrow> wf_bs bs"
      using choosePort_clear [OF Inr that] .
    with r Some res show ?thesis by (cases err) auto
  qed
qed

lemma MarkPortAsUsed_result:
  assumes "MarkPortAsUsed pr s port = (err, pr', s')"
  shows "(err = None \<longrightarrow> agrees pr' s' \<or> (pr' = pr \<and> s' = s))
       \<and> (err \<noteq> None \<longrightarrow> bitSet pr' = bitSet pr)"
proof (cases "bitSet pr")
  case None
  with assms show ?thesis by (auto simp add: MarkPortAsUsed_def)
next
  case (Some bs)
  show ?thesis
  proof (cases "port < Start (config pr) \<or> port > End (config pr)")
    case True
    with assms Some show ?thesis by (auto simp add: MarkPortAsUsed_def)
  next
    case False
    show ?thesis
    proof (cases "Test bs port")
      case (Inl e)
      with assms Some False show ?thesis by (auto simp add: MarkPortAsUsed_def)
    next
      case (Inr used)
      show ?thesis
      proof (cases used)
        case True
        with assms Some False Inr show ?thesis by (auto simp add: MarkPortAsUsed_def)
      next
        case F: False
        with assms Some False Inr have ms: "markAndSave pr s bs port = (err, pr', s')"
          by (auto simp add: MarkPortAsUsed_def)
        from markAndSave_result [OF ms] Inr F Some show ?thesis by auto
      qed
    qed
  qed
qed

lemma ReleasePort_result:
  assumes "ReleasePort pr s port = (err, pr', s')"
  shows "(err = None \<longrightarrow> agrees pr' s' \<or> (pr' = pr \<and> s' = s))
       \<and> (err \<noteq> None \<longrightarrow> bitSet pr' = bitSet pr)"
proof (cases "bitSet pr")
  case None
  with assms show ?thesis by (auto simp add: ReleasePort_def)
next
  case (Some bs)
  show ?thesis
  proof (cases "port < Start (config pr) \<or> port > End (config pr)")
    case True
    with assms Some show ?thesis by (auto simp add: ReleasePort_def)
  next
    case False
    show ?thesis
    proof (cases "Test bs port")
      case (Inl e)
      with assms Some False show ?thesis by (auto simp add: ReleasePort_def)
    next
      case (Inr used)
      show ?thesis
      proof (cases used)
        case F: False
        with assms Some False Inr show ?thesis by (auto simp add: ReleasePort_def)
      next
        case True
        show ?thesis
        proof (cases "Clear bs port")
          case (Inl e)
          with assms Some False Inr True show ?thesis by (auto simp add: ReleasePort_def)
        next
          case R: (Inr cleared)
          have reset: "Set cleared port = Inr bs"
            using Set_after_Clear [OF R] Inr True by simp
          from SaveBitSet_result [of s "name pr" cleared] show ?thesis
          proof (elim disjE exE conjE)
            fix s1 assume "SaveBitSet s (name pr) cleared = (Some StorageFailure, s1)"
            with assms Some False Inr True R reset show ?thesis
              by (auto simp add: ReleasePort_def)
          next
            fix s1 assume "SaveBitSet s (name pr) cleared = (None, s1)"
              "persisted s1 (name pr) = Some (Some (ToJSON cleared))"
            with assms Some False Inr True R show ?thesis
              by (auto simp add: ReleasePort_def agrees_def)
          qed
        qed
      qed
    qed
  qed
qed

text \<open>
  What a call leaves. When it returns success, either it has saved, and the blob stored
  for the range is the serialisation of the BitSet now in memory, or it has skipped the
  save and changed neither the range nor the storage. When it returns an error, a failed
  save among them, the BitSet in memory is the one from before the call (for an
  auto-allocation, on a well-formed BitSet).
\<close>

lemma range_call_outcome:
  assumes "callRange c pr s = (err, pr', s')"
  shows "(err = None \<longrightarrow> agrees pr' s' \<or> (pr' = pr \<and> s' = s))
       \<and> (err = None \<and> agrees pr s \<longrightarrow> agrees pr' s')
       \<and> (err \<noteq> None \<and> (c = Allocate 0 \<longrightarrow> (\<forall>bs. bitSet pr = Some bs \<longrightarrow> wf_bs bs))
            \<longrightarrow> bitSet pr' = bitSet pr)"
proof -
  have main: "(err = None \<longrightarrow> agrees pr' s' \<or> (pr' = pr \<and> s' = s))
       \<and> (err \<noteq> None \<and> (c = Allocate 0 \<longrightarrow> (\<forall>bs. bitSet pr = Some bs \<longrightarrow> wf_bs bs))
            \<longrightarrow> bitSet pr' = bitSet pr)"
  proof (cases c)
    case (Allocate requestedPort)
    obtain res where run: "AllocatePort pr s requestedPort = (res, pr', s')"
      and err: "err = (case res of Inl e \<Rightarrow> Some e | Inr port \<Rightarrow> None)"
      using assms Allocate
      by (cases "AllocatePort pr s requestedPort" rule: prod_cases3)
         (auto simp add: callRange_def split: sum.splits)
    from AllocatePort_result [OF run] err Allocate show ?thesis
      by (cases res) auto
  next
    case (Release port)
    with assms have "ReleasePort pr s port = (err, pr', s')" by (simp add: callRange_def)
    from ReleasePort_result [OF this] show ?thesis by blast
  next
    case (MarkUsed port)
    with assms have "MarkPortAsUsed pr s port = (err, pr', s')" by (simp add: callRange_def)
    from MarkPortAsUsed_result [OF this] show ?thesis by blast
  qed
  then show ?thesis by blast
qed

section \<open>Serialisation\<close>

lemmas conversion_defs = uint64_of_float64_def int_of_float64_def int32_of_float64_def

lemma float64_eval:
  "float64_of_int 9007199254740993 = Some 9007199254740992"
  "float64_of_int 64 = Some 64"
  "float64_of_int 30000 = Some 30000"
  by (simp_all add: float64_of_int_def float64_of_nat_def bitlen.simps)

lemma float64_of_int_exact:
  assumes "\<bar>i\<bar> < 2 ^ 53"
  shows "float64_of_int i = Some i"
proof -
  have n: "nat \<bar>i\<bar> < 2 ^ 53" using assms by (simp add: nat_less_iff)
  then have f: "float64_of_nat (nat \<bar>i\<bar>) = nat \<bar>i\<bar>" by (simp add: float64_of_nat_def)
  have "(2::nat) ^ 53 < 2 ^ 1024" by (rule power_strict_increasing) simp_all
  with n have "\<not> (2::nat) ^ 1024 \<le> nat \<bar>i\<bar>" by linarith
  moreover have "sgn i * \<bar>i\<bar> = i" by (simp add: mult_sgn_abs)
  ultimately show ?thesis by (simp add: float64_of_int_def f Let_def)
qed

lemma decodeElems_words:
  assumes "\<forall>w \<in> set ws. uint w < 2 ^ 53"
  shows "decodeElems (map (\<lambda>w. JNumber (uint w)) ws) = Some (map (\<lambda>w. VFloat64 (uint (w :: 64 word))) ws)"
  using assms
proof (induction ws)
  case Nil
  then show ?case by simp
next
  case (Cons w ws)
  have "\<bar>uint w\<bar> < 2 ^ 53" using Cons.prems by simp
  then have "float64_of_int (uint w) = Some (uint w)" by (rule float64_of_int_exact)
  with Cons show ?case by simp
qed

lemma convertBits_words:
  "convertBits impl i (map (\<lambda>w. VFloat64 (uint (w :: 64 word))) ws) = Inr ws"
proof (induction ws arbitrary: i)
  case Nil
  then show ?case by simp
next
  case (Cons w ws)
  have "uint w < 18446744073709551616" using uint_bounded [of w] by simp
  with Cons show ?case by (simp add: uint64_of_float64_def)
qed

lemma FromJSON_ToJSON:
  assumes "\<forall>w \<in> set (bits bs). uint w < 2 ^ 53"
    and "\<bar>size_bs bs\<bar> < 2 ^ 53" "- (2 ^ 31) \<le> offset bs" "offset bs < 2 ^ 31"
  shows "FromJSON impl receiver (Some (ToJSON bs)) =
           Inr (receiver\<lparr>bits := bits bs, size_bs := size_bs bs, offset := offset bs\<rparr>)"
proof -
  have o: "float64_of_int (offset bs) = Some (offset bs)"
    using assms(3,4) by (intro float64_of_int_exact) auto
  have z: "float64_of_int (size_bs bs) = Some (size_bs bs)"
    using assms(2) by (rule float64_of_int_exact)
  have u: "unmarshal (Some (ToJSON bs)) =
      Inr (map_of [(''size'', VFloat64 (size_bs bs)), (''offset'', VFloat64 (offset bs)),
                   (''bits'', VSlice (map (\<lambda>w. VFloat64 (uint w)) (bits bs)))])"
    by (simp add: unmarshal_def ToJSON_def decodeElems_words [OF assms(1)] o z)
  have s: "int_of_float64 impl (size_bs bs) = size_bs bs"
    using assms(2) by (auto simp add: int_of_float64_def)
  have f: "int32_of_float64 impl (offset bs) = offset bs"
    using assms(3,4) by (auto simp add: int32_of_float64_def)
  show ?thesis
    by (simp add: FromJSON_def u convertBits_words s f)
qed

text \<open>
  C3. Round trip of a BitSet with a word beyond \<open>2^53\<close>. The BitSet of the range 30000
  to 30063 with the ports 30000 and 30053 set has the word \<open>2^53 + 1\<close>; \<open>ToJSON\<close> writes
  it exactly, \<open>FromJSON\<close> reads it through a \<open>float64\<close> as \<open>2^53\<close>: the BitSet that comes
  back has lost port 30000, under every implementation of the conversions.
\<close>

theorem roundtrip_loses_bit:
  "NewBitSet 30000 30063 = Inr \<lparr>bits = [0], size_bs = 64, offset = 30000\<rparr>
   \<and> Set \<lparr>bits = [0], size_bs = 64, offset = 30000\<rparr> 30000
       = Inr \<lparr>bits = [1], size_bs = 64, offset = 30000\<rparr>
   \<and> Set \<lparr>bits = [1], size_bs = 64, offset = 30000\<rparr> 30053 = Inr wideBitSet
   \<and> FromJSON impl wideBitSet (Some (ToJSON wideBitSet))
       = Inr \<lparr>bits = [9007199254740992], size_bs = 64, offset = 30000\<rparr>
   \<and> Test wideBitSet 30000 = Inr True
   \<and> Test \<lparr>bits = [9007199254740992], size_bs = 64, offset = 30000\<rparr> 30000 = Inr False"
proof -
  have n: "NewBitSet 30000 30063 = Inr \<lparr>bits = [0], size_bs = 64, offset = 30000\<rparr>"
    by (simp add: NewBitSet_def wrap32_def go_div_def bitsPerWord_def)
  have s1: "Set \<lparr>bits = [0], size_bs = 64, offset = 30000\<rparr> 30000
       = Inr \<lparr>bits = [1], size_bs = 64, offset = 30000\<rparr>"
    by (simp add: Set_def limit_def wrap32_def go_div_def go_mod_def bitsPerWord_def)
  have s2: "Set \<lparr>bits = [1], size_bs = 64, offset = 30000\<rparr> 30053 = Inr wideBitSet"
    by (simp add: Set_def limit_def wrap32_def go_div_def go_mod_def bitsPerWord_def
        wideBitSet_def)
  have r: "FromJSON impl wideBitSet (Some (ToJSON wideBitSet))
       = Inr \<lparr>bits = [9007199254740992], size_bs = 64, offset = 30000\<rparr>"
    by (simp add: FromJSON_def unmarshal_def ToJSON_def wideBitSet_def float64_eval
        conversion_defs)
  have t1: "Test wideBitSet 30000 = Inr True"
    by (simp add: Test_def limit_def wrap32_def go_div_def go_mod_def bitsPerWord_def
        wideBitSet_def)
  have t2: "Test \<lparr>bits = [9007199254740992], size_bs = 64, offset = 30000\<rparr> 30000 = Inr False"
    by (simp add: Test_def limit_def wrap32_def go_div_def go_mod_def bitsPerWord_def)
  from n s1 s2 r t1 t2 show ?thesis by simp
qed

section \<open>Loading a stored blob\<close>

lemma FromJSON_ToJSON_representable:
  assumes "representable stored"
  shows "FromJSON impl (receiver :: BitSet) (Some (ToJSON stored)) = Inr stored"
proof -
  have "\<forall>w \<in> set (bits stored). uint w < 2 ^ 53"
    using assms by (simp add: representable_def list_all_iff)
  from FromJSON_ToJSON [OF this, of impl receiver] assms show ?thesis
    by (simp add: representable_def)
qed

lemma Initialize_stored:
  assumes "nextFault s = (False, s')" "configMap s = Some cmData"
    and "cmData (name pr) = Some data"
    and "NewBitSet (Start (config pr)) (End (config pr)) = Inr fresh"
  shows "Initialize impl pr s =
           (case FromJSON impl fresh data of
              Inl e \<Rightarrow> (None, pr\<lparr>bitSet := Some fresh\<rparr>, s')
            | Inr loaded \<Rightarrow> (None, pr\<lparr>bitSet := Some loaded\<rparr>, s'))"
proof -
  have cm: "configMap s' = Some cmData"
    using assms(1,2) by (cases "faults s") (auto simp: nextFault_def)
  show ?thesis
    by (cases "FromJSON impl fresh data")
       (simp_all add: Initialize_def LoadBitSet_def assms(1,3,4) cm)
qed

text \<open>
  C4, as stated, fails: \<open>Initialize\<close> of the range 30000 to 30063 over a blob stored for
  the 64 ports from 31000 on succeeds and leaves that stored BitSet in the range, offset
  31000 and all; the empty BitSet of the configured range is not what the range gets.
\<close>

theorem initialize_keeps_stale_blob:
  "Start (config movedRange) = 30000 \<and> End (config movedRange) = 30063
   \<and> Initialize amd64 movedRange staleStorage
       = (None, movedRange\<lparr>bitSet := Some \<lparr>bits = [1], size_bs = 64, offset = 31000\<rparr>\<rparr>,
          staleStorage)
   \<and> NewBitSet 30000 30063 = Inr \<lparr>bits = [0], size_bs = 64, offset = 30000\<rparr>"
proof -
  have r: "representable \<lparr>bits = [1], size_bs = 64, offset = 31000\<rparr>"
    by (simp add: representable_def)
  have n: "NewBitSet 30000 30063 = Inr \<lparr>bits = [0], size_bs = 64, offset = 30000\<rparr>"
    by (simp add: NewBitSet_def wrap32_def go_div_def bitsPerWord_def)
  show ?thesis
    by (simp add: Initialize_def LoadBitSet_def nextFault_def movedRange_def NewPortRange_def
        staleStorage_def n FromJSON_ToJSON_representable [OF r])
qed

text \<open>
  C4, amended. \<open>Initialize\<close> never compares the stored offset and size with the
  configured range. Whenever a blob is stored for the range: a blob that decodes is
  adopted as decoded, whatever the configured start and end; in particular a blob that
  \<open>ToJSON\<close> wrote for a representable BitSet gives that BitSet back, with its own offset
  and size; and a blob that fails to decode is discarded for the empty BitSet of the
  configured range.
\<close>

theorem initialize_adopts_stored_blob:
  assumes "fst (nextFault s) = False" "configMap s = Some cmData"
    and "cmData (name pr) = Some data"
    and "NewBitSet (Start (config pr)) (End (config pr)) = Inr fresh"
  shows "(FromJSON impl fresh data = Inr loaded \<longrightarrow>
            Initialize impl pr s = (None, pr\<lparr>bitSet := Some loaded\<rparr>, snd (nextFault s)))
       \<and> (data = Some (ToJSON stored) \<and> representable stored \<longrightarrow>
            Initialize impl pr s = (None, pr\<lparr>bitSet := Some stored\<rparr>, snd (nextFault s)))
       \<and> (FromJSON impl fresh data = Inl e \<longrightarrow>
            Initialize impl pr s = (None, pr\<lparr>bitSet := Some fresh\<rparr>, snd (nextFault s)))"
proof -
  obtain s' where nf: "nextFault s = (False, s')" using assms(1) by (cases "nextFault s") simp
  note init = Initialize_stored [OF nf assms(2-4), of impl]
  have "Initialize impl pr s = (None, pr\<lparr>bitSet := Some stored\<rparr>, s')"
    if "data = Some (ToJSON stored)" "representable stored"
    using init FromJSON_ToJSON_representable [OF that(2), of impl fresh] that(1) by simp
  then show ?thesis using init by (simp add: nf)
qed

theorem initialize_adopts_stored_blob_witness:
  "fst (nextFault staleStorage) = False
   \<and> configMap staleStorage
       = Some [''dev'' \<mapsto> Some (ToJSON \<lparr>bits = [1], size_bs = 64, offset = 31000\<rparr>)]
   \<and> NewBitSet (Start (config movedRange)) (End (config movedRange))
       = Inr \<lparr>bits = [0], size_bs = 64, offset = 30000\<rparr>
   \<and> representable \<lparr>bits = [1], size_bs = 64, offset = 31000\<rparr>
   \<and> FromJSON amd64 \<lparr>bits = [0], size_bs = 64, offset = 30000\<rparr>
        (Some (ToJSON \<lparr>bits = [1], size_bs = 64, offset = 31000\<rparr>))
       = Inr \<lparr>bits = [1], size_bs = 64, offset = 31000\<rparr>
   \<and> Initialize amd64 movedRange staleStorage
       = (None, movedRange\<lparr>bitSet := Some \<lparr>bits = [1], size_bs = 64, offset = 31000\<rparr>\<rparr>,
          snd (nextFault staleStorage))
   \<and> fst (nextFault junkStorage) = False
   \<and> configMap junkStorage = Some [''junk'' \<mapsto> None]
   \<and> NewBitSet (Start (config junkRange)) (End (config junkRange))
       = Inr \<lparr>bits = [0], size_bs = 2, offset = 31500\<rparr>
   \<and> FromJSON amd64 \<lparr>bits = [0], size_bs = 2, offset = 31500\<rparr> None = Inl InvalidJSON
   \<and> Initialize amd64 junkRange junkStorage
       = (None, junkRange\<lparr>bitSet := Some \<lparr>bits = [0], size_bs = 2, offset = 31500\<rparr>\<rparr>,
          snd (nextFault junkStorage))"
proof -
  let ?stored = "\<lparr>bits = [1], size_bs = 64, offset = 31000\<rparr>"
  let ?cm = "[''dev'' \<mapsto> Some (ToJSON ?stored)]"
  let ?jm = "[''junk'' \<mapsto> (None :: json option)]"
  have a1: "fst (nextFault staleStorage) = False"
    by (simp add: nextFault_def staleStorage_def)
  have a2: "configMap staleStorage = Some ?cm" by (simp add: staleStorage_def)
  have a3: "?cm (name movedRange) = Some (Some (ToJSON ?stored))"
    by (simp add: movedRange_def NewPortRange_def)
  have a4: "NewBitSet (Start (config movedRange)) (End (config movedRange))
       = Inr \<lparr>bits = [0], size_bs = 64, offset = 30000\<rparr>"
    by (simp add: movedRange_def NewPortRange_def NewBitSet_def wrap32_def go_div_def
        bitsPerWord_def)
  have a5: "representable ?stored" by (simp add: representable_def)
  have a6: "FromJSON amd64 \<lparr>bits = [0], size_bs = 64, offset = 30000\<rparr> (Some (ToJSON ?stored))
       = Inr ?stored"
    by (rule FromJSON_ToJSON_representable [OF a5])
  have b1: "fst (nextFault junkStorage) = False"
    by (simp add: nextFault_def junkStorage_def)
  have b2: "configMap junkStorage = Some ?jm" by (simp add: junkStorage_def)
  have b3: "?jm (name junkRange) = Some None" by (simp add: junkRange_def NewPortRange_def)
  have b4: "NewBitSet (Start (config junkRange)) (End (config junkRange))
       = Inr \<lparr>bits = [0], size_bs = 2, offset = 31500\<rparr>"
    by (simp add: junkRange_def NewPortRange_def NewBitSet_def wrap32_def go_div_def
        bitsPerWord_def)
  have b5: "FromJSON amd64 \<lparr>bits = [0], size_bs = 2, offset = 31500\<rparr> None = Inl InvalidJSON"
    by (simp add: FromJSON_def unmarshal_def)
  have adopt: "Initialize amd64 movedRange staleStorage
       = (None, movedRange\<lparr>bitSet := Some ?stored\<rparr>, snd (nextFault staleStorage))"
    using initialize_adopts_stored_blob [OF a1 a2 a3 a4, of amd64 ?stored ?stored InvalidJSON]
      a5 a6
    by simp
  have discard: "Initialize amd64 junkRange junkStorage
       = (None, junkRange\<lparr>bitSet := Some \<lparr>bits = [0], size_bs = 2, offset = 31500\<rparr>\<rparr>,
          snd (nextFault junkStorage))"
    using initialize_adopts_stored_blob [OF b1 b2 b3 b4, of amd64 ?stored ?stored InvalidJSON]
      b5
    by simp
  from a1 a2 a4 a5 a6 adopt b1 b2 b4 b5 discard show ?thesis by simp
qed

text \<open>
  A range that agrees with the storage is what a reload returns, when its BitSet is
  representable.
\<close>

lemma reload_after_agreement:
  assumes "agrees pr s" "bitSet pr = Some bs" "representable bs"
    and "fst (nextFault s) = False" "NewBitSet start end = Inr fresh"
  shows "fst (LoadBitSet impl s (name pr) start end) = Inr bs"
proof -
  obtain s' where nf: "nextFault s = (False, s')" using assms(4) by (cases "nextFault s") simp
  have cm: "configMap s' = configMap s"
    using nf by (cases "faults s") (auto simp: nextFault_def)
  from assms(1,2) obtain cmData where d: "configMap s = Some cmData"
    "cmData (name pr) = Some (Some (ToJSON bs))"
    by (auto simp add: agrees_def persisted_def split: option.splits)
  show ?thesis
    by (simp add: LoadBitSet_def nf cm d assms(5) FromJSON_ToJSON_representable [OF assms(3)])
qed

text \<open>
  C8. The range \<open>wide\<close>, 30000 to 30063, holds port 30000, in memory and in the
  storage: it is what \<open>Initialize\<close> makes of that storage, and a reload returns the BitSet
  in memory. \<open>MarkPortAsUsed\<close> of port 30053 returns success, and so does \<open>AllocatePort\<close>
  of that port: the BitSet in memory then has the word \<open>2^53 + 1\<close>, and a reload from the
  storage returns the word \<open>2^53\<close>, without port 30000. After a public call that returned
  success, memory and storage disagree: the defect of C3, met through \<open>LoadBitSet\<close>.
\<close>

theorem successful_call_reload_differs:
  "Initialize impl (NewPortRange ''wide'' (config wideRange)) wideStorage
     = (None, wideRange, wideStorage)
   \<and> fst (LoadBitSet impl wideStorage ''wide'' 30000 30063)
       = Inr \<lparr>bits = [1], size_bs = 64, offset = 30000\<rparr>
   \<and> fst (MarkPortAsUsed wideRange wideStorage 30053) = None
   \<and> bitSet (fst (snd (MarkPortAsUsed wideRange wideStorage 30053))) = Some wideBitSet
   \<and> fst (LoadBitSet impl (snd (snd (MarkPortAsUsed wideRange wideStorage 30053)))
             ''wide'' 30000 30063)
       = Inr \<lparr>bits = [9007199254740992], size_bs = 64, offset = 30000\<rparr>
   \<and> fst (AllocatePort wideRange wideStorage 30053) = Inr 30053
   \<and> bitSet (fst (snd (AllocatePort wideRange wideStorage 30053))) = Some wideBitSet
   \<and> fst (LoadBitSet impl (snd (snd (AllocatePort wideRange wideStorage 30053)))
             ''wide'' 30000 30063)
       = Inr \<lparr>bits = [9007199254740992], size_bs = 64, offset = 30000\<rparr>"
proof -
  have n: "NewBitSet 30000 30063 = Inr \<lparr>bits = [0], size_bs = 64, offset = 30000\<rparr>"
    by (simp add: NewBitSet_def wrap32_def go_div_def bitsPerWord_def)
  have r: "representable \<lparr>bits = [1], size_bs = 64, offset = 30000\<rparr>"
    by (simp add: representable_def)
  note small = FromJSON_ToJSON_representable [OF r]
  have lossy: "FromJSON impl \<lparr>bits = [0], size_bs = 64, offset = 30000\<rparr> (Some (ToJSON wideBitSet))
       = Inr \<lparr>bits = [9007199254740992], size_bs = 64, offset = 30000\<rparr>"
    by (simp add: FromJSON_def unmarshal_def ToJSON_def wideBitSet_def float64_eval
        conversion_defs)
  have t: "Test \<lparr>bits = [1], size_bs = 64, offset = 30000\<rparr> 30053 = Inr False"
    by (simp add: Test_def limit_def wrap32_def go_div_def go_mod_def bitsPerWord_def)
  have st: "Set \<lparr>bits = [1], size_bs = 64, offset = 30000\<rparr> 30053 = Inr wideBitSet"
    by (simp add: Set_def limit_def wrap32_def go_div_def go_mod_def bitsPerWord_def
        wideBitSet_def)
  have i: "Initialize impl (NewPortRange ''wide'' (config wideRange)) wideStorage
     = (None, wideRange, wideStorage)"
    by (simp add: Initialize_def LoadBitSet_def nextFault_def wideRange_def wideStorage_def
        NewPortRange_def n small)
  have l: "fst (LoadBitSet impl wideStorage ''wide'' 30000 30063)
       = Inr \<lparr>bits = [1], size_bs = 64, offset = 30000\<rparr>"
    by (simp add: LoadBitSet_def nextFault_def wideStorage_def n small)
  have m: "MarkPortAsUsed wideRange wideStorage 30053
       = (None, wideRange\<lparr>bitSet := Some wideBitSet\<rparr>,
          wideStorage\<lparr>configMap := Some [''wide'' \<mapsto> Some (ToJSON wideBitSet)]\<rparr>)"
    by (simp add: MarkPortAsUsed_def markAndSave_def SaveBitSet_def nextFault_def
        wideRange_def wideStorage_def t st)
  have a: "AllocatePort wideRange wideStorage 30053
       = (Inr 30053, wideRange\<lparr>bitSet := Some wideBitSet\<rparr>,
          wideStorage\<lparr>configMap := Some [''wide'' \<mapsto> Some (ToJSON wideBitSet)]\<rparr>)"
    by (simp add: AllocatePort_def choosePort_def markAndSave_def SaveBitSet_def nextFault_def
        wideRange_def wideStorage_def t st)
  have l': "fst (LoadBitSet impl
               (wideStorage\<lparr>configMap := Some [''wide'' \<mapsto> Some (ToJSON wideBitSet)]\<rparr>)
               ''wide'' 30000 30063)
       = Inr \<lparr>bits = [9007199254740992], size_bs = 64, offset = 30000\<rparr>"
    by (simp add: LoadBitSet_def nextFault_def wideStorage_def n lossy)
  from i l m a l' show ?thesis by simp
qed

section \<open>Validation of the configuration\<close>

lemma validateRange_None:
  "validateRange n r = None \<longleftrightarrow> 30000 \<le> Start r \<and> Start r < End r \<and> End r \<le> 32767"
  by (auto simp add: validateRange_def)

lemma validateRanges_None:
  "validateRanges order = None \<longleftrightarrow> (\<forall>(n, r) \<in> set order. validateRange n r = None)"
  by (induction order rule: validateRanges.induct) (auto split: option.splits)

lemma visits_set: "visits m order \<Longrightarrow> set order = set m"
  by (auto simp add: visits_def dest: mset_eq_setD)

text \<open>
  C5, as stated, fails: the ranges \<open>a\<close>, 30000 to 31000, and \<open>b\<close>, 30500 to 31500,
  overlap, and \<open>validateConfig\<close> accepts the configuration, in either order of its loop.
\<close>

theorem validateConfig_accepts_overlap:
  "Start rangeA = 30000 \<and> End rangeA = 31000 \<and> Start rangeB = 30500 \<and> End rangeB = 31500
   \<and> PortRanges overlapConfig = [(''a'', rangeA), (''b'', rangeB)]
   \<and> validateConfig parses1s [(''a'', rangeA), (''b'', rangeB)] overlapConfig = None
   \<and> validateConfig parses1s [(''b'', rangeB), (''a'', rangeA)] overlapConfig = None"
  by (simp add: validateConfig_def validateRange_def overlapConfig_def rangeA_def rangeB_def
      parses1s_def)

text \<open>
  C5, amended. \<open>validateConfig\<close> accepts a configuration exactly when there is at least
  one range, the default range is named and configured, every range on its own has
  \<open>30000 \<le> start < end \<le> 32767\<close>, and the retry delay parses. No check relates two
  ranges, so overlapping intervals are accepted.
\<close>

theorem validateConfig_accepts_iff:
  assumes "visits (PortRanges c) order"
  shows "validateConfig ParseDuration order c = None \<longleftrightarrow>
           PortRanges c \<noteq> [] \<and> DefaultRange c \<noteq> [] \<and>
           DefaultRange c \<in> fst ` set (PortRanges c) \<and>
           (\<forall>(n, r) \<in> set (PortRanges c). 30000 \<le> Start r \<and> Start r < End r \<and> End r \<le> 32767) \<and>
           ParseDuration (RetryDelay (StorageConfig c))"
proof -
  have "validateRanges order = None \<longleftrightarrow>
        (\<forall>(n, r) \<in> set (PortRanges c). 30000 \<le> Start r \<and> Start r < End r \<and> End r \<le> 32767)"
    by (simp add: validateRanges_None visits_set [OF assms] validateRange_None)
  moreover have "map_of (PortRanges c) (DefaultRange c) = None \<longleftrightarrow>
        DefaultRange c \<notin> fst ` set (PortRanges c)"
    by (rule map_of_eq_None_iff)
  ultimately show ?thesis
    by (cases "validateRanges order") (auto simp add: validateConfig_def)
qed

theorem validateConfig_accepts_iff_witness:
  "visits (PortRanges overlapConfig) [(''b'', rangeB), (''a'', rangeA)]
   \<and> validateConfig parses1s [(''b'', rangeB), (''a'', rangeA)] overlapConfig = None
   \<and> PortRanges overlapConfig \<noteq> [] \<and> DefaultRange overlapConfig \<noteq> []
   \<and> DefaultRange overlapConfig \<in> fst ` set (PortRanges overlapConfig)
   \<and> 30000 \<le> Start rangeA \<and> Start rangeA < End rangeA \<and> End rangeA \<le> 32767
   \<and> 30000 \<le> Start rangeB \<and> Start rangeB < End rangeB \<and> End rangeB \<le> 32767
   \<and> parses1s (RetryDelay (StorageConfig overlapConfig))"
proof -
  have v: "visits (PortRanges overlapConfig) [(''b'', rangeB), (''a'', rangeA)]"
    by (simp add: visits_def overlapConfig_def)
  have r: "30000 \<le> Start rangeA \<and> Start rangeA < End rangeA \<and> End rangeA \<le> 32767
   \<and> 30000 \<le> Start rangeB \<and> Start rangeB < End rangeB \<and> End rangeB \<le> 32767"
    by (simp add: rangeA_def rangeB_def)
  have d: "PortRanges overlapConfig \<noteq> [] \<and> DefaultRange overlapConfig \<noteq> []
   \<and> DefaultRange overlapConfig \<in> fst ` set (PortRanges overlapConfig)
   \<and> parses1s (RetryDelay (StorageConfig overlapConfig))"
    by (simp add: overlapConfig_def parses1s_def)
  have "validateConfig parses1s [(''b'', rangeB), (''a'', rangeA)] overlapConfig = None"
    using validateConfig_accepts_iff [OF v, of parses1s] r d
    by (simp add: overlapConfig_def)
  with v r d show ?thesis by simp
qed

section \<open>Policy resolution\<close>

lemma labelsMatch_iff: "labelsMatch kvs labels \<longleftrightarrow> (\<forall>(k, v) \<in> set kvs. labels k = Some v)"
  by (induction kvs labels rule: labelsMatch.induct) (auto split: option.splits)

lemma namespaceListed_iff:
  "namespaceListed nss namespace \<longleftrightarrow> namespace \<in> set nss \<or> ''*'' \<in> set nss"
  by (induction nss namespace rule: namespaceListed.induct) auto

lemma labelLoop_find: "labelLoop order labels = find (labelMatches labels) order"
  by (induction order labels rule: labelLoop.induct) (auto simp add: labelMatches_def)

lemma namespaceLoop_find: "namespaceLoop order namespace = find (namespaceMatches namespace) order"
  by (induction order namespace rule: namespaceLoop.induct) (auto simp add: namespaceMatches_def)

lemma find_as_filter: "find P xs = (case filter P xs of [] \<Rightarrow> None | x # rest \<Rightarrow> Some x)"
  by (induction xs) auto

lemma short_lists_same:
  assumes "mset xs = mset ys" "length xs \<le> 1"
  shows "xs = ys"
proof -
  have l: "length ys = length xs" using assms(1) by (metis size_mset)
  show ?thesis
  proof (cases xs)
    case Nil
    with assms(1) show ?thesis by simp
  next
    case (Cons x xs')
    with assms(2) have xs: "xs = [x]" by simp
    with l obtain y where ys: "ys = [y]" by (cases ys) auto
    with xs assms(1) show ?thesis by simp
  qed
qed

lemma find_unambiguous:
  assumes "visits m order1" "visits m order2" "length (filter P m) \<le> 1"
  shows "find P order1 = find P order2" "filter P order1 = filter P m"
proof -
  have m1: "mset (filter P m) = mset (filter P order1)"
    and m2: "mset (filter P m) = mset (filter P order2)"
    using assms(1,2) by (simp_all add: visits_def)
  from short_lists_same [OF m1 assms(3)] short_lists_same [OF m2 assms(3)]
  show "find P order1 = find P order2" "filter P order1 = filter P m"
    by (simp_all add: find_as_filter)
qed

text \<open>
  C6, as stated, fails: with the label selectors of \<open>blue\<close> and \<open>green\<close> both matching,
  \<open>GetPortRangeForService\<close> returns \<open>blue\<close> under one order of visiting the map of ranges
  and \<open>green\<close> under the other; both are visits of the same configuration.
\<close>

theorem resolve_depends_on_iteration_order:
  "visits (PortRanges labelConfig) [(''blue'', blueRange), (''green'', greenRange)]
   \<and> visits (PortRanges labelConfig) [(''green'', greenRange), (''blue'', blueRange)]
   \<and> GetPortRangeForService [(''blue'', blueRange), (''green'', greenRange)]
        [(''blue'', blueRange), (''green'', greenRange)] labelConfig ''default'' shopLabels
       = Inr (''blue'', blueRange)
   \<and> GetPortRangeForService [(''green'', greenRange), (''blue'', blueRange)]
        [(''green'', greenRange), (''blue'', blueRange)] labelConfig ''default'' shopLabels
       = Inr (''green'', greenRange)"
  by (simp add: visits_def labelConfig_def GetPortRangeForService_def blueRange_def
      greenRange_def shopLabels_def)

text \<open>
  C6, amended. When at most one range's label selector matches the labels and, if none
  does, at most one range lists the namespace (literally or by the wildcard),
  \<open>GetPortRangeForService\<close> returns the same result under every order of visiting the
  ranges, in both of its loops.
\<close>

theorem resolve_deterministic_when_unambiguous:
  assumes "visits (PortRanges c) labelOrder1" "visits (PortRanges c) nsOrder1"
    and "visits (PortRanges c) labelOrder2" "visits (PortRanges c) nsOrder2"
    and "length (filter (labelMatches labels) (PortRanges c)) \<le> 1"
    and "filter (labelMatches labels) (PortRanges c) = [] \<longrightarrow>
         length (filter (namespaceMatches namespace) (PortRanges c)) \<le> 1"
  shows "GetPortRangeForService labelOrder1 nsOrder1 c namespace labels
       = GetPortRangeForService labelOrder2 nsOrder2 c namespace labels"
proof -
  note l = find_unambiguous [OF assms(1,3,5)]
  show ?thesis
  proof (cases "find (labelMatches labels) labelOrder1")
    case (Some found)
    moreover from Some l(1) have "find (labelMatches labels) labelOrder2 = Some found" by simp
    ultimately show ?thesis by (simp add: GetPortRangeForService_def labelLoop_find)
  next
    case None
    then have "filter (labelMatches labels) labelOrder1 = []"
      by (simp add: find_as_filter split: list.splits)
    with l(2) assms(6) have "length (filter (namespaceMatches namespace) (PortRanges c)) \<le> 1"
      by simp
    moreover from None l(1) have "find (labelMatches labels) labelOrder2 = None" by simp
    ultimately show ?thesis
      using find_unambiguous(1) [OF assms(2,4), of "namespaceMatches namespace"] None
      by (simp add: GetPortRangeForService_def GetPortRangeForNamespace_def labelLoop_find
          namespaceLoop_find)
  qed
qed

theorem resolve_deterministic_when_unambiguous_witness:
  "visits (PortRanges labelConfig) [(''blue'', blueRange), (''green'', greenRange)]
   \<and> visits (PortRanges labelConfig) [(''green'', greenRange), (''blue'', blueRange)]
   \<and> length (filter (labelMatches Map.empty) (PortRanges labelConfig)) \<le> 1
   \<and> filter (labelMatches Map.empty) (PortRanges labelConfig) = []
   \<and> length (filter (namespaceMatches ''shop'') (PortRanges labelConfig)) \<le> 1
   \<and> GetPortRangeForService [(''blue'', blueRange), (''green'', greenRange)]
        [(''blue'', blueRange), (''green'', greenRange)] labelConfig ''shop'' Map.empty
       = Inr (''green'', greenRange)
   \<and> GetPortRangeForService [(''green'', greenRange), (''blue'', blueRange)]
        [(''green'', greenRange), (''blue'', blueRange)] labelConfig ''shop'' Map.empty
       = Inr (''green'', greenRange)"
proof -
  have v1: "visits (PortRanges labelConfig) [(''blue'', blueRange), (''green'', greenRange)]"
    and v2: "visits (PortRanges labelConfig) [(''green'', greenRange), (''blue'', blueRange)]"
    by (simp_all add: visits_def labelConfig_def)
  have f: "filter (labelMatches Map.empty) (PortRanges labelConfig) = []"
    by (simp add: labelMatches_def labelConfig_def blueRange_def greenRange_def)
  have one: "length (filter (labelMatches Map.empty) (PortRanges labelConfig)) \<le> 1"
    by (simp add: f)
  have n: "length (filter (namespaceMatches ''shop'') (PortRanges labelConfig)) \<le> 1"
    by (simp add: namespaceMatches_def labelConfig_def blueRange_def greenRange_def)
  then have ns: "filter (labelMatches Map.empty) (PortRanges labelConfig) = [] \<longrightarrow>
         length (filter (namespaceMatches ''shop'') (PortRanges labelConfig)) \<le> 1"
    by simp
  have g: "GetPortRangeForService [(''green'', greenRange), (''blue'', blueRange)]
        [(''green'', greenRange), (''blue'', blueRange)] labelConfig ''shop'' Map.empty
       = Inr (''green'', greenRange)"
    by (simp add: GetPortRangeForService_def GetPortRangeForNamespace_def blueRange_def
        greenRange_def)
  from resolve_deterministic_when_unambiguous [OF v1 v1 v2 v2 one ns] g v1 v2 one f n
  show ?thesis by simp
qed

text \<open>
  C7. With the configuration of the README, a Service in the namespace \<open>dev\<close>, which
  \<open>development\<close> lists literally: when the loop meets \<open>default\<close>, which lists \<open>*\<close>,
  first, it returns \<open>default\<close>; the literal match is returned only when it is met
  before.
\<close>

theorem wildcard_shadows_explicit_namespace:
  "visits (PortRanges readmeConfig) defaultFirst
   \<and> GetPortRangeForNamespace defaultFirst readmeConfig ''dev'' = Inr (''default'', defaultRange)
   \<and> GetPortRangeForService defaultFirst defaultFirst readmeConfig ''dev'' Map.empty
       = Inr (''default'', defaultRange)
   \<and> GetPortRangeForNamespace (PortRanges readmeConfig) readmeConfig ''dev''
       = Inr (''development'', developmentRange)"
  by (simp add: visits_def readmeConfig_def defaultFirst_def GetPortRangeForNamespace_def
      GetPortRangeForService_def productionRange_def stagingRange_def developmentRange_def
      defaultRange_def)

section \<open>The admission transaction\<close>

lemmas bitset_eval = Set_def Test_def Clear_def limit_def wrap32_def go_div_def go_mod_def
  bitsPerWord_def FindFirstClear_def scanBits.simps

lemmas range_eval = AllocatePort_def choosePort_def markAndSave_def ReleasePort_def
  IsPortUsed_def SaveBitSet_def nextFault_def

lemmas allocator_eval = AllocateForService_def GetPortRangeForService_def
  GetPortRangeForNamespace_def GetPortRange_def putRange_def rollbackAndFail_def devConfig_def
  devRange_def svc_def Let_def

text \<open>\<open>AllocatePort\<close> rejects every requested port outside the configured range.\<close>

lemma AllocatePort_outside:
  assumes "bitSet pr = Some bs" "p \<noteq> 0" "p < Start (config pr) \<or> p > End (config pr)"
  shows "AllocatePort pr s p = (Inl (PortOutOfRange p (Start (config pr)) (End (config pr))), pr, s)"
  using assms by (simp add: AllocatePort_def choosePort_def)


lemma devManager_reached:
  "Initialize impl (NewPortRange ''dev'' devRange) noStorage
     = (None, \<lparr>name = ''dev'', config = devRange, bitSet = Some emptyDevBits\<rparr>, noStorage)"
  by (simp add: Initialize_def LoadBitSet_def nextFault_def noStorage_def NewPortRange_def
      devRange_def NewBitSet_def wrap32_def go_div_def bitsPerWord_def emptyDevBits_def
      numeral_eq_Suc)

lemma e5Manager_reached:
  "snd (AllocateForService (PortRanges (devConfig False)) (PortRanges (devConfig False))
         (devManager False) (svc [31600])) = e5Manager"
  by (simp add: allocator_eval range_eval bitset_eval devManager_def e5Manager_def
      emptyDevBits_def e5Bits_def noStorage_def)

text \<open>
  C1. Scenario E5: a Service with the node ports 0, 31600, 0 while 31600 is in use.
  \<open>AllocateForService\<close> allocates 31500 for the first port, fails at the second in the
  pre-check \<open>IsPortUsed\<close> and returns there, without \<open>rollbackAllocations\<close>: 31500, free
  before, stays in use. The same holds when the failure is the outside-range gate (ports
  0, 32000). When the failure comes from \<open>AllocatePort\<close> (ports 0, 32000 with outside
  ports allowed) the rollback runs and 31500 is free again.
\<close>

theorem early_return_skips_rollback:
  "usedIn e5Manager ''dev'' 31600 = Some (Inr True)
   \<and> usedIn e5Manager ''dev'' 31500 = Some (Inr False)
   \<and> fst (AllocateForService (PortRanges (devConfig False)) (PortRanges (devConfig False))
           e5Manager (svc [0, 31600, 0])) = Inl (NodePortInUse 31600)
   \<and> usedIn (snd (AllocateForService (PortRanges (devConfig False))
                    (PortRanges (devConfig False)) e5Manager (svc [0, 31600, 0])))
        ''dev'' 31500 = Some (Inr True)
   \<and> fst (AllocateForService (PortRanges (devConfig False)) (PortRanges (devConfig False))
           e5Manager (svc [0, 32000])) = Inl (OutsideRange 32000 ''dev'' 31500 31999)
   \<and> usedIn (snd (AllocateForService (PortRanges (devConfig False))
                    (PortRanges (devConfig False)) e5Manager (svc [0, 32000])))
        ''dev'' 31500 = Some (Inr True)
   \<and> fst (AllocateForService (PortRanges (devConfig True)) (PortRanges (devConfig True))
           (devManager True) (svc [0, 32000]))
       = Inl (SpecifiedAllocateFailed 32000 (PortOutOfRange 32000 31500 31999))
   \<and> usedIn (snd (AllocateForService (PortRanges (devConfig True))
                    (PortRanges (devConfig True)) (devManager True) (svc [0, 32000])))
        ''dev'' 31500 = Some (Inr False)"
  by (simp add: allocator_eval range_eval bitset_eval usedIn_def e5Manager_def e5Bits_def
      devManager_def emptyDevBits_def noStorage_def)

text \<open>
  C2. A port outside the range, 32000 for the range 31500 to 31999. With
  \<open>AllowOutsideRangePorts\<close> false \<open>AllocateForService\<close> fails at the gate, as claimed.
  With it true the gate only logs, and the port goes on to \<open>AllocatePort\<close>, whose own
  range check rejects it: the transaction fails instead of admitting the entry.
\<close>

theorem allowed_outside_port_is_rejected:
  "AllowOutsideRangePorts (config_m (devManager True))
   \<and> fst (AllocateForService (PortRanges (devConfig True)) (PortRanges (devConfig True))
           (devManager True) (svc [32000]))
       = Inl (SpecifiedAllocateFailed 32000 (PortOutOfRange 32000 31500 31999))
   \<and> fst (AllocateForService (PortRanges (devConfig False)) (PortRanges (devConfig False))
           (devManager False) (svc [32000]))
       = Inl (OutsideRange 32000 ''dev'' 31500 31999)"
  by (simp add: allocator_eval range_eval bitset_eval devManager_def emptyDevBits_def
      noStorage_def)

section \<open>A range that was never initialised\<close>

text \<open>
  C10. Before \<open>Initialize\<close> has run the BitSet pointer is nil. Then \<open>AllocatePort\<close>,
  \<open>ReleasePort\<close> and \<open>MarkPortAsUsed\<close> return the error "not initialised" (no panic),
  leave the range and the storage exactly as they were (nothing is written, no fault is
  consumed), and \<open>IsPortUsed\<close> returns false.
\<close>

theorem uninitialized_range_is_safe:
  assumes "bitSet pr = None"
  shows "AllocatePort pr s requestedPort = (Inl NotInitialized, pr, s)
       \<and> ReleasePort pr s port = (Some NotInitialized, pr, s)
       \<and> MarkPortAsUsed pr s port = (Some NotInitialized, pr, s)
       \<and> IsPortUsed pr port = Inr False"
  using assms
  by (simp add: AllocatePort_def ReleasePort_def MarkPortAsUsed_def IsPortUsed_def)

theorem uninitialized_range_is_safe_witness:
  "bitSet (NewPortRange ''dev'' devRange) = None
   \<and> AllocatePort (NewPortRange ''dev'' devRange) noStorage 0
       = (Inl NotInitialized, NewPortRange ''dev'' devRange, noStorage)
   \<and> ReleasePort (NewPortRange ''dev'' devRange) noStorage 31500
       = (Some NotInitialized, NewPortRange ''dev'' devRange, noStorage)
   \<and> MarkPortAsUsed (NewPortRange ''dev'' devRange) noStorage 31500
       = (Some NotInitialized, NewPortRange ''dev'' devRange, noStorage)
   \<and> IsPortUsed (NewPortRange ''dev'' devRange) 31500 = Inr False"
proof -
  have nil: "bitSet (NewPortRange ''dev'' devRange) = None"
    by (simp add: NewPortRange_def)
  show ?thesis
    using nil uninitialized_range_is_safe [OF nil, of noStorage 0 31500] by simp
qed

end
